theory Spec2Isabelle
  imports Main "HOL-Library.Word"
begin

unbundle bit_operations_syntax

section \<open>Machine types and status codes\<close>

text \<open>
  The target is a 32-bit Arm core: pointers, \<open>size_t\<close>, \<open>unsigned long\<close>,
  \<open>int32_t\<close> and \<open>uint32_t\<close> are 32-bit words. A signed value is kept as
  its two's complement bit pattern. A value of type \<open>uint8_t\<close> that is used as an
  array index is kept as the natural number it denotes; the one place where the source
  truncates to eight bits (\<open>get_spe_mailbox_msg_idx\<close>) does so explicitly.
\<close>

type_synonym u8 = "8 word"
type_synonym u32 = "32 word"
type_synonym i32 = "32 word"
type_synonym addr = "32 word"

text \<open>
  A run of the C code either returns or stops: \<open>psa_panic\<close> never returns, and an
  array access outside the array, or a shift of an \<open>int\<close> by 32 bits or more, has no
  defined behaviour. Both are results of the model.
\<close>

datatype fault = PSA_PANIC | UNDEFINED_BEHAVIOUR

text \<open>The mailbox return codes named in \<open>tfm_spe_mailbox.c\<close>; any other code (one the
  platform's initialisation hands back) is carried raw.\<close>

datatype mailbox_ret =
    MAILBOX_SUCCESS
  | MAILBOX_INVAL_PARAMS
  | MAILBOX_NO_PEND_EVENT
  | MAILBOX_CALLBACK_REG_ERROR
  | MAILBOX_OTHER_ERROR i32

text \<open>PSA status codes are plain \<open>int32_t\<close> values (\<open>psa/error.h\<close>).\<close>

type_synonym psa_status_t = i32

definition PSA_SUCCESS :: psa_status_t where
  "PSA_SUCCESS = 0"

definition PSA_ERROR_PROGRAMMER_ERROR :: psa_status_t where
  "PSA_ERROR_PROGRAMMER_ERROR = - 129"

definition PSA_ERROR_CONNECTION_REFUSED :: psa_status_t where
  "PSA_ERROR_CONNECTION_REFUSED = - 130"

definition PSA_ERROR_CONNECTION_BUSY :: psa_status_t where
  "PSA_ERROR_CONNECTION_BUSY = - 131"

definition PSA_ERROR_INVALID_ARGUMENT :: psa_status_t where
  "PSA_ERROR_INVALID_ARGUMENT = - 135"

definition MAILBOX_MSG_NULL_HANDLE :: i32 where
  "MAILBOX_MSG_NULL_HANDLE = 0"

definition NULL :: addr where
  "NULL = 0"

section \<open>The mailbox data model\<close>

text \<open>\<open>psa_invec\<close> and \<open>psa_outvec\<close>: a base pointer and a length.\<close>

record psa_vec =
  base :: addr
  len :: u32

definition zero_vec :: psa_vec where
  "zero_vec = \<lparr>base = 0, len = 0\<rparr>"

text \<open>
  \<open>struct vectors\<close>, the staging entry of one slot. The arrays \<open>in_vec\<close> and
  \<open>out_vec\<close> have \<open>PSA_MAX_IOVEC\<close> elements; an array is a function from indices,
  and every access checks the index against the array's size.
\<close>

record vectors_t =
  in_vec :: "nat \<Rightarrow> psa_vec"
  out_vec :: "nat \<Rightarrow> psa_vec"
  original_out_vec :: addr
  out_len :: u32
  in_use :: bool

text \<open>The static array \<open>vectors\<close> starts zeroed.\<close>

definition zero_vectors :: vectors_t where
  "zero_vectors = \<lparr>in_vec = (\<lambda>i. zero_vec), out_vec = (\<lambda>i. zero_vec),
     original_out_vec = 0, out_len = 0, in_use = False\<rparr>"

text \<open>The tag of a mailbox message; the \<open>default\<close> branch of the dispatch switch takes
  every other value.\<close>

datatype mailbox_call_type =
    MAILBOX_PSA_FRAMEWORK_VERSION
  | MAILBOX_PSA_VERSION
  | MAILBOX_PSA_CALL
  | MAILBOX_PSA_CONNECT
  | MAILBOX_PSA_CLOSE
  | MAILBOX_UNKNOWN_CALL u32

text \<open>
  \<open>struct psa_client_params_t\<close> is a union of the parameter blocks of the four calls.
  Each branch of the dispatch reads only the block of its own call, so the model keeps
  the blocks side by side.
\<close>

record psa_client_params_t =
  psa_version_sid :: u32
  psa_connect_sid :: u32
  psa_connect_version :: u32
  psa_call_handle :: i32
  psa_call_type :: i32
  psa_call_in_vec :: addr
  psa_call_in_len :: u32
  psa_call_out_vec :: addr
  psa_call_out_len :: u32
  psa_close_handle :: i32

record mailbox_msg_t =
  call_type :: mailbox_call_type
  params :: psa_client_params_t
  client_id :: i32

definition zero_params :: psa_client_params_t where
  "zero_params = \<lparr>psa_version_sid = 0, psa_connect_sid = 0, psa_connect_version = 0,
     psa_call_handle = 0, psa_call_type = 0, psa_call_in_vec = 0, psa_call_in_len = 0,
     psa_call_out_vec = 0, psa_call_out_len = 0, psa_close_handle = 0\<rparr>"

definition zero_msg :: mailbox_msg_t where
  "zero_msg = \<lparr>call_type = MAILBOX_UNKNOWN_CALL 0, params = zero_params, client_id = 0\<rparr>"

text \<open>One entry of the secure queue, \<open>spe_mailbox_queue.queue[idx]\<close>.\<close>

record secure_mailbox_slot_t =
  ns_slot_idx :: nat
  msg_handle :: i32
  msg :: mailbox_msg_t

definition zero_slot :: secure_mailbox_slot_t where
  "zero_slot = \<lparr>ns_slot_idx = 0, msg_handle = 0, msg = zero_msg\<rparr>"

text \<open>One slot of the non-secure queue, and the non-secure status words.\<close>

record mailbox_slot_t =
  ns_msg :: mailbox_msg_t
  return_val :: u32

record mailbox_status_t =
  pend_slots :: u32
  replied_slots :: u32

text \<open>
  What the engine does that is visible from outside one call: the slots handed to
  \<open>tfm_mailbox_dispatch\<close>, the slots cleaned by the drain pass after a rejected message,
  the replies committed by \<open>mailbox_direct_reply\<close>, the batched clear of the
  non-secure pending bits, and the calls of \<open>tfm_mailbox_hal_notify_peer\<close>. The model
  appends each to a log, in program order.
\<close>

datatype event =
    Dispatched nat
  | Cleaned nat
  | Direct_reply nat u32
  | Pend_cleared u32
  | Notify_peer

text \<open>
  The state: \<open>spe_mailbox_queue\<close> (with the non-secure queue and status words its
  pointers lead to), the static array \<open>vectors\<close>, the non-secure memory that holds the
  callers' descriptor arrays (one 32-bit word per aligned byte address), the state
  \<open>ext\<close> of the SPM behind the RPC layer, and the log. The non-secure queue and
  status words are kept apart from the memory of the descriptor arrays: a caller's array
  does not overlap them.
\<close>

record 'x mailbox_state =
  empty_slots :: u32
  queue :: "nat \<Rightarrow> secure_mailbox_slot_t"
  ns_slot_count :: nat
  ns_slots :: "nat \<Rightarrow> mailbox_slot_t"
  ns_status :: mailbox_status_t
  vectors :: "nat \<Rightarrow> vectors_t"
  ns_mem :: "addr \<Rightarrow> u32"
  ext :: 'x
  trace :: "event list"

text \<open>\<open>struct client_params_t\<close> as \<open>tfm_mailbox_dispatch\<close> fills it: the translated
  client id and the slot whose staged vectors \<open>p_invecs\<close> and \<open>p_outvecs\<close> point to.\<close>

record client_params_t =
  ns_client_id_stateless :: i32
  p_vecs_slot :: nat

text \<open>
  What the file takes from headers and from other modules: the two capacities, the two
  build options, the macros that pack the control word, the client id translation and
  the RPC entry points. The RPC entry points run on the SPM's state.
\<close>

record 'x mailbox_env =
  NUM_MAILBOX_QUEUE_SLOT :: nat
  PSA_MAX_IOVEC :: nat
  CONFIG_TFM_SPM_BACKEND_IPC :: bool
  CONFIG_TFM_CONNECTION_BASED_SERVICE_API :: bool
  PARAM_PACK :: "i32 \<Rightarrow> u32 \<Rightarrow> u32 \<Rightarrow> u32"
  PARAM_SET_NS_INVEC :: "u32 \<Rightarrow> u32"
  PARAM_SET_NS_OUTVEC :: "u32 \<Rightarrow> u32"
  tfm_multi_core_hal_client_id_translate :: "i32 \<Rightarrow> i32 option"
  tfm_rpc_psa_framework_version :: "'x \<Rightarrow> psa_status_t \<times> 'x"
  tfm_rpc_psa_version :: "u32 \<Rightarrow> 'x \<Rightarrow> psa_status_t \<times> 'x"
  tfm_rpc_psa_call :: "i32 \<Rightarrow> u32 \<Rightarrow> client_params_t \<Rightarrow> i32 \<Rightarrow> 'x \<Rightarrow> psa_status_t \<times> 'x"
  tfm_rpc_psa_connect :: "u32 \<Rightarrow> u32 \<Rightarrow> i32 \<Rightarrow> i32 \<Rightarrow> 'x \<Rightarrow> psa_status_t \<times> 'x"
  tfm_rpc_psa_close :: "i32 \<Rightarrow> i32 \<Rightarrow> 'x \<Rightarrow> psa_status_t \<times> 'x"
  tfm_rpc_register_ops :: "'x \<Rightarrow> bool \<times> 'x"
  tfm_rpc_unregister_ops :: "'x \<Rightarrow> 'x"
  tfm_mailbox_hal_init :: "mailbox_ret \<times> nat \<times> (nat \<Rightarrow> mailbox_slot_t) \<times> mailbox_status_t"

section \<open>Slot table\<close>

text \<open>
  The masks \<open>1 << idx\<close> are built for indices below \<open>NUM_MAILBOX_QUEUE_SLOT\<close> only.
  The capacity has to fit the 32-bit bitmask: every theorem that reads a bit takes
  \<open>NUM_MAILBOX_QUEUE_SLOT\<close> to be at most 32.
\<close>

definition set_spe_queue_empty_status :: "'x mailbox_env \<Rightarrow> nat \<Rightarrow> 'x mailbox_state \<Rightarrow> 'x mailbox_state" where
  "set_spe_queue_empty_status env idx s =
     (if idx < NUM_MAILBOX_QUEUE_SLOT env
      then s\<lparr>empty_slots := empty_slots s OR push_bit idx 1\<rparr>
      else s)"

definition clear_spe_queue_empty_status :: "'x mailbox_env \<Rightarrow> nat \<Rightarrow> 'x mailbox_state \<Rightarrow> 'x mailbox_state" where
  "clear_spe_queue_empty_status env idx s =
     (if idx < NUM_MAILBOX_QUEUE_SLOT env
      then s\<lparr>empty_slots := empty_slots s AND NOT (push_bit idx 1)\<rparr>
      else s)"

definition get_spe_queue_empty_status :: "'x mailbox_env \<Rightarrow> nat \<Rightarrow> 'x mailbox_state \<Rightarrow> bool" where
  "get_spe_queue_empty_status env idx s =
     (idx < NUM_MAILBOX_QUEUE_SLOT env \<and> empty_slots s AND push_bit idx 1 \<noteq> 0)"

definition get_nspe_queue_pend_status :: "mailbox_status_t \<Rightarrow> u32" where
  "get_nspe_queue_pend_status st = pend_slots st"

definition set_nspe_queue_replied_status :: "u32 \<Rightarrow> mailbox_status_t \<Rightarrow> mailbox_status_t" where
  "set_nspe_queue_replied_status m st = st\<lparr>replied_slots := replied_slots st OR m\<rparr>"

definition clear_nspe_queue_pend_status :: "u32 \<Rightarrow> mailbox_status_t \<Rightarrow> mailbox_status_t" where
  "clear_nspe_queue_pend_status m st = st\<lparr>pend_slots := pend_slots st AND NOT m\<rparr>"

text \<open>\<open>get_spe_mailbox_msg_handle\<close> is only called with the address of a slot's
  \<open>msg_handle\<close>, so its pointer argument is never null.\<close>

definition get_spe_mailbox_msg_handle :: "'x mailbox_env \<Rightarrow> nat \<Rightarrow> mailbox_ret + i32" where
  "get_spe_mailbox_msg_handle env idx =
     (if NUM_MAILBOX_QUEUE_SLOT env \<le> idx then Inl MAILBOX_INVAL_PARAMS
      else Inr (word_of_nat (idx + 1)))"

text \<open>\<open>get_spe_mailbox_msg_idx\<close>: the only check is against the null handle (the pointer
  argument is the address of a local); the index is \<open>handle - 1\<close> cut to eight bits.\<close>

definition get_spe_mailbox_msg_idx :: "i32 \<Rightarrow> mailbox_ret + nat" where
  "get_spe_mailbox_msg_idx handle =
     (if handle = MAILBOX_MSG_NULL_HANDLE then Inl MAILBOX_INVAL_PARAMS
      else Inr (unat (ucast (handle - 1) :: u8)))"

definition mailbox_clean_queue_slot :: "'x mailbox_env \<Rightarrow> nat \<Rightarrow> 'x mailbox_state \<Rightarrow> 'x mailbox_state" where
  "mailbox_clean_queue_slot env idx s =
     (if NUM_MAILBOX_QUEUE_SLOT env \<le> idx then s
      else set_spe_queue_empty_status env idx (s\<lparr>queue := (queue s)(idx := zero_slot)\<rparr>))"

text \<open>\<open>get_nspe_reply_addr\<close> returns the index of the non-secure slot whose reply word
  is written, or panics.\<close>

definition get_nspe_reply_addr :: "'x mailbox_env \<Rightarrow> nat \<Rightarrow> 'x mailbox_state \<Rightarrow> fault + nat" where
  "get_nspe_reply_addr env idx s =
     (if NUM_MAILBOX_QUEUE_SLOT env \<le> idx then Inl PSA_PANIC
      else if NUM_MAILBOX_QUEUE_SLOT env \<le> ns_slot_idx (queue s idx)
              \<or> ns_slot_count s \<le> ns_slot_idx (queue s idx) then Inl PSA_PANIC
      else Inr (ns_slot_idx (queue s idx)))"

section \<open>Vector staging and reply\<close>

text \<open>
  A descriptor array in non-secure memory: element \<open>i\<close> of the array at \<open>p\<close> is the
  word pair at \<open>p + 8 * i\<close> (base) and \<open>p + 8 * i + 4\<close> (length).
\<close>

definition vec_base_addr :: "addr \<Rightarrow> nat \<Rightarrow> addr" where
  "vec_base_addr p i = p + 8 * word_of_nat i"

definition vec_len_addr :: "addr \<Rightarrow> nat \<Rightarrow> addr" where
  "vec_len_addr p i = p + 8 * word_of_nat i + 4"

definition read_vec :: "(addr \<Rightarrow> u32) \<Rightarrow> addr \<Rightarrow> nat \<Rightarrow> psa_vec" where
  "read_vec mem p i = \<lparr>base = mem (vec_base_addr p i), len = mem (vec_len_addr p i)\<rparr>"

text \<open>
  The write-back loop of \<open>mailbox_direct_reply\<close>, from index \<open>i\<close> on, for a caller
  whose descriptor array does not overlap the staging entry: the entry \<open>v\<close> is then
  the same in every iteration. The loop stores the staged length of each output vector
  in the caller's array, and reads past the staged array when \<open>out_len\<close> is larger
  than the array. In the program the stores go through the unchecked pointer
  \<open>original_out_vec\<close> into the address space that holds \<open>vectors[]\<close> too, and the
  entry is read again in each iteration: that loop is \<open>copy_back_lens_flat\<close> below,
  and it is this one as long as its stores stay outside the entry (lemma
  \<open>copy_back_lens_flat_refines\<close>).
\<close>

function copy_back_lens :: "'x mailbox_env \<Rightarrow> vectors_t \<Rightarrow> nat \<Rightarrow> (addr \<Rightarrow> u32) \<Rightarrow> fault + (addr \<Rightarrow> u32)" where
  "copy_back_lens env v i mem =
     (if i < unat (out_len v) then
        (if PSA_MAX_IOVEC env \<le> i then Inl UNDEFINED_BEHAVIOUR
         else copy_back_lens env v (i + 1)
                (mem(vec_len_addr (original_out_vec v) i := len (out_vec v i))))
      else Inr mem)"
  by pat_completeness auto
termination
  by (relation "measure (\<lambda>(env, v, i, mem). unat (out_len v) - i)") auto

definition mailbox_direct_reply :: "'x mailbox_env \<Rightarrow> nat \<Rightarrow> u32 \<Rightarrow> 'x mailbox_state \<Rightarrow> fault + 'x mailbox_state" where
  "mailbox_direct_reply env idx result s =
     (if NUM_MAILBOX_QUEUE_SLOT env \<le> idx then Inl UNDEFINED_BEHAVIOUR
      else
        case (if in_use (vectors s idx) \<and> result = PSA_SUCCESS
              then copy_back_lens env (vectors s idx) 0 (ns_mem s)
              else Inr (ns_mem s)) of
          Inl f \<Rightarrow> Inl f
        | Inr mem \<Rightarrow>
            let s1 = s\<lparr>ns_mem := mem,
                       vectors := (vectors s)(idx := (vectors s idx)\<lparr>in_use := False\<rparr>),
                       trace := trace s @ [Direct_reply idx result]\<rparr>
            in case get_nspe_reply_addr env idx s1 of
                 Inl f \<Rightarrow> Inl f
               | Inr n \<Rightarrow>
                   Inr (mailbox_clean_queue_slot env idx
                          (s1\<lparr>ns_slots := (ns_slots s1)(n := (ns_slots s1 n)\<lparr>return_val := result\<rparr>)\<rparr>)))"

definition check_mailbox_msg :: "mailbox_msg_t \<Rightarrow> mailbox_ret" where
  "check_mailbox_msg m = MAILBOX_SUCCESS"

text \<open>The two copy loops of \<open>local_copy_vects\<close>: every element of the staged array is
  written, from the caller's array below the declared length and with zero above it.\<close>

definition stage_in_vecs :: "'x mailbox_env \<Rightarrow> psa_client_params_t \<Rightarrow> (addr \<Rightarrow> u32) \<Rightarrow> vectors_t \<Rightarrow> vectors_t" where
  "stage_in_vecs env p mem v =
     fold (\<lambda>i v. v\<lparr>in_vec := (in_vec v)(i :=
              if i < unat (psa_call_in_len p) then read_vec mem (psa_call_in_vec p) i
              else zero_vec)\<rparr>)
       [0..<PSA_MAX_IOVEC env] v"

definition stage_out_vecs :: "'x mailbox_env \<Rightarrow> psa_client_params_t \<Rightarrow> (addr \<Rightarrow> u32) \<Rightarrow> vectors_t \<Rightarrow> vectors_t" where
  "stage_out_vecs env p mem v =
     fold (\<lambda>i v. v\<lparr>out_vec := (out_vec v)(i :=
              if i < unat (psa_call_out_len p) then read_vec mem (psa_call_out_vec p) i
              else zero_vec)\<rparr>)
       [0..<PSA_MAX_IOVEC env] v"

text \<open>\<open>local_copy_vects\<close> returns its status, the control word and the state.\<close>

definition local_copy_vects :: "'x mailbox_env \<Rightarrow> psa_client_params_t \<Rightarrow> nat \<Rightarrow> u32 \<Rightarrow> 'x mailbox_state
    \<Rightarrow> fault + (mailbox_ret \<times> u32 \<times> 'x mailbox_state)" where
  "local_copy_vects env p idx control s =
     (if (psa_call_out_vec p = NULL \<and> psa_call_out_len p \<noteq> 0)
         \<or> (psa_call_in_vec p = NULL \<and> psa_call_in_len p \<noteq> 0)
      then Inr (MAILBOX_INVAL_PARAMS, control, s)
      else if PSA_MAX_IOVEC env < unat (psa_call_in_len p)
              \<or> PSA_MAX_IOVEC env < unat (psa_call_out_len p)
              \<or> PSA_MAX_IOVEC env < unat (psa_call_in_len p + psa_call_out_len p)
      then Inr (MAILBOX_INVAL_PARAMS, control, s)
      else if NUM_MAILBOX_QUEUE_SLOT env \<le> idx then Inl UNDEFINED_BEHAVIOUR
      else
        let v = stage_out_vecs env p (ns_mem s) (stage_in_vecs env p (ns_mem s) (vectors s idx));
            control' = PARAM_SET_NS_OUTVEC env (PARAM_SET_NS_INVEC env control);
            v' = v\<lparr>out_len := psa_call_out_len p,
                   original_out_vec := psa_call_out_vec p,
                   in_use := True\<rparr>
        in Inr (MAILBOX_SUCCESS, control', s\<lparr>vectors := (vectors s)(idx := v')\<rparr>))"

section \<open>Mailbox queue engine\<close>

text \<open>The end of \<open>tfm_mailbox_dispatch\<close>: a synchronous result is replied at once and
  its slot is recorded in \<open>reply_slots\<close>.\<close>

definition dispatch_finish :: "'x mailbox_env \<Rightarrow> nat \<Rightarrow> bool \<Rightarrow> psa_status_t \<Rightarrow> u32 \<Rightarrow> 'x mailbox_state
    \<Rightarrow> fault + (mailbox_ret \<times> u32 \<times> 'x mailbox_state)" where
  "dispatch_finish env idx sync psa_ret reply_slots s =
     (if sync then
        (case mailbox_direct_reply env idx psa_ret s of
           Inl f \<Rightarrow> Inl f
         | Inr s' \<Rightarrow> Inr (MAILBOX_SUCCESS, reply_slots OR push_bit idx 1, s'))
      else Inr (MAILBOX_SUCCESS, reply_slots, s))"

text \<open>
  \<open>tfm_mailbox_dispatch\<close>. The message is the one in \<open>queue[idx]\<close>; the RPC layer is
  given the value of the slot's handle. With the IPC backend a call is asynchronous
  unless an error makes it synchronous; without it every call is synchronous.
\<close>

definition tfm_mailbox_dispatch :: "'x mailbox_env \<Rightarrow> mailbox_msg_t \<Rightarrow> nat \<Rightarrow> u32 \<Rightarrow> 'x mailbox_state
    \<Rightarrow> fault + (mailbox_ret \<times> u32 \<times> 'x mailbox_state)" where
  "tfm_mailbox_dispatch env m idx reply_slots s0 =
     (let s = s0\<lparr>trace := trace s0 @ [Dispatched idx]\<rparr>;
          p = params m;
          control = PARAM_PACK env (psa_call_type p) (psa_call_in_len p) (psa_call_out_len p);
          mb_msg_handle = msg_handle (queue s idx);
          sync = (\<not> CONFIG_TFM_SPM_BACKEND_IPC env)
      in case call_type m of
           MAILBOX_PSA_FRAMEWORK_VERSION \<Rightarrow>
             (case tfm_rpc_psa_framework_version env (ext s) of
                (psa_ret, x) \<Rightarrow> dispatch_finish env idx True psa_ret reply_slots (s\<lparr>ext := x\<rparr>))
         | MAILBOX_PSA_VERSION \<Rightarrow>
             (case tfm_rpc_psa_version env (psa_version_sid p) (ext s) of
                (psa_ret, x) \<Rightarrow> dispatch_finish env idx True psa_ret reply_slots (s\<lparr>ext := x\<rparr>))
         | MAILBOX_PSA_CALL \<Rightarrow>
             (case local_copy_vects env p idx control s of
                Inl f \<Rightarrow> Inl f
              | Inr (ret, control', s1) \<Rightarrow>
                  if ret \<noteq> MAILBOX_SUCCESS
                  then dispatch_finish env idx True PSA_ERROR_INVALID_ARGUMENT reply_slots s1
                  else
                    (case tfm_multi_core_hal_client_id_translate env (client_id m) of
                       None \<Rightarrow> dispatch_finish env idx True PSA_ERROR_INVALID_ARGUMENT reply_slots s1
                     | Some cid \<Rightarrow>
                         (case tfm_rpc_psa_call env (psa_call_handle p) control'
                                 \<lparr>ns_client_id_stateless = cid, p_vecs_slot = idx\<rparr>
                                 mb_msg_handle (ext s1) of
                            (psa_ret, x) \<Rightarrow>
                              dispatch_finish env idx (sync \<or> psa_ret \<noteq> PSA_SUCCESS) psa_ret
                                reply_slots (s1\<lparr>ext := x\<rparr>))))
         | MAILBOX_PSA_CONNECT \<Rightarrow>
             if CONFIG_TFM_CONNECTION_BASED_SERVICE_API env then
               (case tfm_multi_core_hal_client_id_translate env (client_id m) of
                  None \<Rightarrow> dispatch_finish env idx True PSA_ERROR_INVALID_ARGUMENT reply_slots s
                | Some cid \<Rightarrow>
                    (case tfm_rpc_psa_connect env (psa_connect_sid p) (psa_connect_version p) cid
                            mb_msg_handle (ext s) of
                       (psa_ret, x) \<Rightarrow>
                         dispatch_finish env idx (sync \<or> psa_ret \<noteq> PSA_SUCCESS) psa_ret
                           reply_slots (s\<lparr>ext := x\<rparr>)))
             else Inr (MAILBOX_INVAL_PARAMS, reply_slots, s)
         | MAILBOX_PSA_CLOSE \<Rightarrow>
             if CONFIG_TFM_CONNECTION_BASED_SERVICE_API env then
               (case tfm_multi_core_hal_client_id_translate env (client_id m) of
                  None \<Rightarrow> dispatch_finish env idx True PSA_ERROR_INVALID_ARGUMENT reply_slots s
                | Some cid \<Rightarrow>
                    (case tfm_rpc_psa_close env (psa_close_handle p) cid (ext s) of
                       (psa_ret, x) \<Rightarrow>
                         dispatch_finish env idx (sync \<or> psa_ret \<noteq> PSA_SUCCESS) psa_ret
                           reply_slots (s\<lparr>ext := x\<rparr>)))
             else Inr (MAILBOX_INVAL_PARAMS, reply_slots, s)
         | MAILBOX_UNKNOWN_CALL t \<Rightarrow> Inr (MAILBOX_INVAL_PARAMS, reply_slots, s))"

definition tfm_mailbox_hal_notify_peer :: "'x mailbox_state \<Rightarrow> 'x mailbox_state" where
  "tfm_mailbox_hal_notify_peer s = s\<lparr>trace := trace s @ [Notify_peer]\<rparr>"

text \<open>The drain pass cleans a slot whose message was rejected.\<close>

definition clean_rejected_slot :: "'x mailbox_env \<Rightarrow> nat \<Rightarrow> 'x mailbox_state \<Rightarrow> 'x mailbox_state" where
  "clean_rejected_slot env idx s =
     mailbox_clean_queue_slot env idx (s\<lparr>trace := trace s @ [Cleaned idx]\<rparr>)"

text \<open>The work of the drain loop on one pending slot, from \<open>clear_spe_queue_empty_status\<close>
  to the call of \<open>tfm_mailbox_dispatch\<close>.\<close>

definition handle_slot :: "'x mailbox_env \<Rightarrow> nat \<Rightarrow> u32 \<Rightarrow> 'x mailbox_state
    \<Rightarrow> fault + (u32 \<times> 'x mailbox_state)" where
  "handle_slot env idx reply_slots s =
     (if NUM_MAILBOX_QUEUE_SLOT env \<le> idx then Inl UNDEFINED_BEHAVIOUR
      else
        let s1 = clear_spe_queue_empty_status env idx s;
            s2 = s1\<lparr>queue := (queue s1)(idx := (queue s1 idx)\<lparr>ns_slot_idx := idx\<rparr>)\<rparr>;
            s3 = s2\<lparr>queue := (queue s2)(idx := (queue s2 idx)\<lparr>msg := ns_msg (ns_slots s2 idx)\<rparr>)\<rparr>
        in if check_mailbox_msg (msg (queue s3 idx)) \<noteq> MAILBOX_SUCCESS
           then Inr (reply_slots, clean_rejected_slot env idx s3)
           else
             let s4 = (case get_spe_mailbox_msg_handle env idx of
                         Inl e \<Rightarrow> s3
                       | Inr h \<Rightarrow> s3\<lparr>queue := (queue s3)(idx := (queue s3 idx)\<lparr>msg_handle := h\<rparr>)\<rparr>)
             in case tfm_mailbox_dispatch env (msg (queue s4 idx)) idx reply_slots s4 of
                  Inl f \<Rightarrow> Inl f
                | Inr (ret, reply_slots', s5) \<Rightarrow>
                    if ret \<noteq> MAILBOX_SUCCESS
                    then Inr (reply_slots', clean_rejected_slot env idx s5)
                    else Inr (reply_slots', s5))"

text \<open>The \<open>for\<close> loop of \<open>tfm_mailbox_handle_msg\<close>, from index \<open>idx\<close> on. The mask
  \<open>1 << idx\<close> is an \<open>int\<close> shifted by \<open>idx\<close>.\<close>

function handle_msg_loop :: "'x mailbox_env \<Rightarrow> u32 \<Rightarrow> nat \<Rightarrow> u32 \<Rightarrow> 'x mailbox_state
    \<Rightarrow> fault + (u32 \<times> 'x mailbox_state)" where
  "handle_msg_loop env pend idx reply_slots s =
     (if idx < ns_slot_count s then
        (if 32 \<le> idx then Inl UNDEFINED_BEHAVIOUR
         else if pend AND push_bit idx 1 = 0
         then handle_msg_loop env pend (idx + 1) reply_slots s
         else
           (case handle_slot env idx reply_slots s of
              Inl f \<Rightarrow> Inl f
            | Inr (reply_slots', s') \<Rightarrow> handle_msg_loop env pend (idx + 1) reply_slots' s'))
      else Inr (reply_slots, s))"
  by pat_completeness auto
termination
  by (relation "measure (\<lambda>(env, pend, idx, reply_slots, s). 32 - idx)") auto

text \<open>\<open>tfm_mailbox_handle_msg\<close>. The status words are always there (the source asserts
  that the pointer to them is not null). The critical sections are calls into the
  platform with no effect on this state; the snapshot is read in the first and cleared
  in the second.\<close>

definition tfm_mailbox_handle_msg :: "'x mailbox_env \<Rightarrow> 'x mailbox_state
    \<Rightarrow> fault + (mailbox_ret \<times> 'x mailbox_state)" where
  "tfm_mailbox_handle_msg env s =
     (let pend = get_nspe_queue_pend_status (ns_status s) in
      if pend = 0 then Inr (MAILBOX_NO_PEND_EVENT, s)
      else
        case handle_msg_loop env pend 0 0 s of
          Inl f \<Rightarrow> Inl f
        | Inr (reply_slots, s1) \<Rightarrow>
            let s2 = s1\<lparr>ns_status := clear_nspe_queue_pend_status pend (ns_status s1),
                         trace := trace s1 @ [Pend_cleared pend]\<rparr>;
                s3 = s2\<lparr>ns_status := set_nspe_queue_replied_status reply_slots (ns_status s2)\<rparr>
            in Inr (MAILBOX_SUCCESS,
                    if reply_slots \<noteq> 0 then tfm_mailbox_hal_notify_peer s3 else s3))"

definition tfm_mailbox_reply_msg :: "'x mailbox_env \<Rightarrow> i32 \<Rightarrow> i32 \<Rightarrow> 'x mailbox_state
    \<Rightarrow> fault + (mailbox_ret \<times> 'x mailbox_state)" where
  "tfm_mailbox_reply_msg env handle reply s =
     (case (if handle = MAILBOX_MSG_NULL_HANDLE then Inr 0
            else get_spe_mailbox_msg_idx handle) of
        Inl ret \<Rightarrow> Inr (ret, s)
      | Inr idx \<Rightarrow>
          if get_spe_queue_empty_status env idx s then Inr (MAILBOX_NO_PEND_EVENT, s)
          else
            case mailbox_direct_reply env idx reply s of
              Inl f \<Rightarrow> Inl f
            | Inr s1 \<Rightarrow>
                Inr (MAILBOX_SUCCESS,
                     tfm_mailbox_hal_notify_peer
                       (s1\<lparr>ns_status :=
                            set_nspe_queue_replied_status (push_bit idx 1) (ns_status s1)\<rparr>)))"

text \<open>
  \<open>tfm_mailbox_init\<close>. The seed of the free bitmask is computed in \<open>unsigned long\<close> and
  cast to the bitmask type, in two steps. The platform's initialisation is given the
  queue to fill in what it knows of the non-secure side: the number of slots, the
  slots and the status words.
\<close>

definition seed_empty_slots :: "nat \<Rightarrow> 'w::len word" where
  "seed_empty_slots n =
     ucast (push_bit (n - 1) (1 :: u32) - 1) + ucast (push_bit (n - 1) (1 :: u32))"

definition tfm_mailbox_init :: "'x mailbox_env \<Rightarrow> 'x mailbox_state \<Rightarrow> mailbox_ret \<times> 'x mailbox_state" where
  "tfm_mailbox_init env s =
     (let s0 = s\<lparr>empty_slots := 0, queue := (\<lambda>i. zero_slot), ns_slot_count := 0\<rparr>;
          s1 = s0\<lparr>empty_slots := seed_empty_slots (NUM_MAILBOX_QUEUE_SLOT env)\<rparr>
      in case tfm_rpc_register_ops env (ext s1) of
           (registered, x) \<Rightarrow>
             if \<not> registered then (MAILBOX_CALLBACK_REG_ERROR, s1\<lparr>ext := x\<rparr>)
             else
               (case tfm_mailbox_hal_init env of
                  (ret, n, slots, status) \<Rightarrow>
                    if ret \<noteq> MAILBOX_SUCCESS
                    then (ret, s1\<lparr>ext := tfm_rpc_unregister_ops env x\<rparr>)
                    else (MAILBOX_SUCCESS,
                          s1\<lparr>ext := x, ns_slot_count := n, ns_slots := slots,
                             ns_status := status\<rparr>)))"
section \<open>The staging array in the address space\<close>

















section \<open>Reading the log\<close>

text \<open>The events a call appended: the log after the call, without the log before it.\<close>

definition new_events :: "'x mailbox_state \<Rightarrow> 'x mailbox_state \<Rightarrow> event list" where
  "new_events s s' = drop (length (trace s)) (trace s')"

text \<open>The slots handed to \<open>tfm_mailbox_dispatch\<close>, in the order of the calls.\<close>

fun dispatched_slots :: "event list \<Rightarrow> nat list" where
  "dispatched_slots [] = []"
| "dispatched_slots (Dispatched i # es) = i # dispatched_slots es"
| "dispatched_slots (e # es) = dispatched_slots es"

text \<open>A slot completed synchronously when \<open>mailbox_direct_reply\<close> committed its reply.\<close>

fun is_direct_reply :: "event \<Rightarrow> bool" where
  "is_direct_reply (Direct_reply i r) = True"
| "is_direct_reply e = False"

text \<open>The events of the work on one slot: neither the batched clear nor a notification.\<close>

fun is_slot_event :: "event \<Rightarrow> bool" where
  "is_slot_event (Pend_cleared m) = False"
| "is_slot_event Notify_peer = False"
| "is_slot_event e = True"

definition notify_count :: "event list \<Rightarrow> nat" where
  "notify_count es = length (filter (\<lambda>e. e = Notify_peer) es)"



text \<open>
  The messages \<open>tfm_mailbox_dispatch\<close> rejects with \<open>MAILBOX_INVAL_PARAMS\<close>: those
  that reach the \<open>default\<close> branch of its switch, which are the unknown call types
  and, without the connection-based service API, connect and close.
\<close>

definition dispatch_rejects :: "'x mailbox_env \<Rightarrow> mailbox_msg_t \<Rightarrow> bool" where
  "dispatch_rejects env m =
     (case call_type m of
        MAILBOX_PSA_FRAMEWORK_VERSION \<Rightarrow> False
      | MAILBOX_PSA_VERSION \<Rightarrow> False
      | MAILBOX_PSA_CALL \<Rightarrow> False
      | MAILBOX_PSA_CONNECT \<Rightarrow> \<not> CONFIG_TFM_CONNECTION_BASED_SERVICE_API env
      | MAILBOX_PSA_CLOSE \<Rightarrow> \<not> CONFIG_TFM_CONNECTION_BASED_SERVICE_API env
      | MAILBOX_UNKNOWN_CALL t \<Rightarrow> True)"


text \<open>
  Every staging entry records at most \<open>PSA_MAX_IOVEC\<close> output vectors. The zeroed array
  does, and \<open>local_copy_vects\<close> only ever records a length that passed its check.
\<close>

definition staged_lens_in_range :: "'x mailbox_env \<Rightarrow> 'x mailbox_state \<Rightarrow> bool" where
  "staged_lens_in_range env s =
     list_all (\<lambda>i. unat (out_len (vectors s i)) \<le> PSA_MAX_IOVEC env)
       [0..<NUM_MAILBOX_QUEUE_SLOT env]"

text \<open>Slot \<open>idx\<close> can take a reply: it is a slot of the queue, its entry names a
  non-secure slot that exists, and the staged lengths are in range.\<close>

definition slot_ready :: "'x mailbox_env \<Rightarrow> nat \<Rightarrow> 'x mailbox_state \<Rightarrow> bool" where
  "slot_ready env idx s =
     (idx < NUM_MAILBOX_QUEUE_SLOT env
      \<and> ns_slot_idx (queue s idx) < NUM_MAILBOX_QUEUE_SLOT env
      \<and> ns_slot_idx (queue s idx) < ns_slot_count s
      \<and> staged_lens_in_range env s)"

section \<open>Connection lifecycle (\<open>psa_connection_api.c\<close>)\<close>

datatype handle_status =
    TFM_HANDLE_STATUS_IDLE
  | TFM_HANDLE_STATUS_ACTIVE
  | TFM_HANDLE_STATUS_TO_FREE

definition PSA_NULL_HANDLE :: i32 where
  "PSA_NULL_HANDLE = 0"

definition PSA_IPC_CONNECT :: i32 where
  "PSA_IPC_CONNECT = - 1"

definition PSA_IPC_DISCONNECT :: i32 where
  "PSA_IPC_DISCONNECT = - 2"

text \<open>
  \<open>struct connection_t\<close>, with the fields of its message that this file touches. A
  service is referred to by its address in the service table; a connection by the
  number of its block in the pool.
\<close>

record connection_t =
  status :: handle_status
  service :: "nat option"
  msg_client_id :: i32
  msg_type :: i32
  msg_rhandle :: addr

text \<open>The SPM's state: which blocks of the connection pool are allocated, the memory
  of the blocks, and the state of the dispatch backend.\<close>

record 'b spm_state =
  pool_used :: "nat \<Rightarrow> bool"
  connections :: "nat \<Rightarrow> connection_t"
  backend :: 'b

text \<open>
  What \<open>psa_connection_api.c\<close> calls in other modules: the service registry and its
  checks, the caller's identity, the pool's allocator (which returns the allocated block,
  or the null pointer), the initialisation of an idle connection, the lookup of a
  handle, and the dispatch backend, which is given the connection and may change any
  part of the state.
\<close>

record 'b spm_env =
  tfm_spm_get_service_by_sid :: "u32 \<Rightarrow> nat option"
  service_flags :: "nat \<Rightarrow> u32"
  SERVICE_IS_STATELESS :: "u32 \<Rightarrow> bool"
  tfm_spm_check_authorization :: "u32 \<Rightarrow> nat \<Rightarrow> bool \<Rightarrow> psa_status_t"
  tfm_spm_check_client_version :: "nat \<Rightarrow> u32 \<Rightarrow> psa_status_t"
  tfm_spm_is_ns_caller :: "'b spm_state \<Rightarrow> bool"
  tfm_spm_get_client_id :: "bool \<Rightarrow> 'b spm_state \<Rightarrow> i32"
  spm_allocate_connection :: "'b spm_state \<Rightarrow> nat option \<times> 'b spm_state"
  spm_init_idle_connection :: "nat \<Rightarrow> nat \<Rightarrow> i32 \<Rightarrow> 'b spm_state \<Rightarrow> 'b spm_state"
  IS_STATIC_HANDLE :: "i32 \<Rightarrow> bool"
  spm_get_idle_connection :: "i32 \<Rightarrow> i32 \<Rightarrow> 'b spm_state \<Rightarrow> psa_status_t \<times> nat"
  backend_messaging :: "nat \<Rightarrow> 'b spm_state \<Rightarrow> psa_status_t \<times> 'b spm_state"

text \<open>
  \<open>spm_psa_connect_client_id_associated\<close>. An early \<open>return\<close> of an error status is
  \<open>Inl\<close>; the final \<open>return PSA_SUCCESS\<close>, which has stored the connection in
  \<open>*p_connection\<close>, is \<open>Inr\<close> of that connection.
\<close>

definition spm_psa_connect_client_id_associated :: "'b spm_env \<Rightarrow> u32 \<Rightarrow> u32 \<Rightarrow> i32 \<Rightarrow> 'b spm_state
    \<Rightarrow> (psa_status_t + nat) \<times> 'b spm_state" where
  "spm_psa_connect_client_id_associated env sid version cid s =
     (let ns_caller = (sint cid < 0) in
      case tfm_spm_get_service_by_sid env sid of
        None \<Rightarrow> (Inl PSA_ERROR_CONNECTION_REFUSED, s)
      | Some svc \<Rightarrow>
          if SERVICE_IS_STATELESS env (service_flags env svc)
          then (Inl PSA_ERROR_PROGRAMMER_ERROR, s)
          else if tfm_spm_check_authorization env sid svc ns_caller \<noteq> PSA_SUCCESS
          then (Inl PSA_ERROR_CONNECTION_REFUSED, s)
          else if tfm_spm_check_client_version env svc version \<noteq> PSA_SUCCESS
          then (Inl PSA_ERROR_CONNECTION_REFUSED, s)
          else
            (case spm_allocate_connection env s of
               (None, s1) \<Rightarrow> (Inl PSA_ERROR_CONNECTION_BUSY, s1)
             | (Some c, s1) \<Rightarrow>
                 let s2 = spm_init_idle_connection env c svc cid s1;
                     s3 = s2\<lparr>connections := (connections s2)(c :=
                            (connections s2 c)\<lparr>msg_type := PSA_IPC_CONNECT\<rparr>)\<rparr>
                 in (Inr c, s3)))"

definition tfm_spm_client_psa_connect :: "'b spm_env \<Rightarrow> u32 \<Rightarrow> u32 \<Rightarrow> 'b spm_state
    \<Rightarrow> psa_status_t \<times> 'b spm_state" where
  "tfm_spm_client_psa_connect env sid version s =
     (let ns_caller = tfm_spm_is_ns_caller env s;
          cid = tfm_spm_get_client_id env ns_caller s
      in case spm_psa_connect_client_id_associated env sid version cid s of
           (Inl st, s1) \<Rightarrow> (st, s1)
         | (Inr c, s1) \<Rightarrow>
             (case backend_messaging env c s1 of
                (st, s2) \<Rightarrow>
                  (st, s2\<lparr>connections := (connections s2)(c :=
                             (connections s2 c)\<lparr>status := TFM_HANDLE_STATUS_ACTIVE\<rparr>)\<rparr>)))"

definition spm_psa_close_client_id_associated :: "'b spm_env \<Rightarrow> i32 \<Rightarrow> i32 \<Rightarrow> 'b spm_state
    \<Rightarrow> psa_status_t \<times> 'b spm_state" where
  "spm_psa_close_client_id_associated env handle cid s =
     (if handle = PSA_NULL_HANDLE then (PSA_SUCCESS, s)
      else if IS_STATIC_HANDLE env handle then (PSA_ERROR_PROGRAMMER_ERROR, s)
      else
        case spm_get_idle_connection env handle cid s of
          (st, c) \<Rightarrow>
            if st \<noteq> PSA_SUCCESS then (st, s)
            else
              let s1 = s\<lparr>connections := (connections s)(c :=
                          (connections s c)\<lparr>msg_type := PSA_IPC_DISCONNECT\<rparr>)\<rparr>
              in case backend_messaging env c s1 of
                   (st', s2) \<Rightarrow>
                     (st', s2\<lparr>connections := (connections s2)(c :=
                                (connections s2 c)\<lparr>status := TFM_HANDLE_STATUS_TO_FREE\<rparr>)\<rparr>))"

definition tfm_spm_client_psa_close :: "'b spm_env \<Rightarrow> i32 \<Rightarrow> 'b spm_state \<Rightarrow> psa_status_t \<times> 'b spm_state" where
  "tfm_spm_client_psa_close env handle s =
     spm_psa_close_client_id_associated env handle
       (tfm_spm_get_client_id env (tfm_spm_is_ns_caller env s) s) s"

text \<open>\<open>n\<close> calls of \<open>spm_psa_close_client_id_associated\<close> in succession, with the
  same arguments: the statuses returned, in order, and the state after the last call.\<close>

fun close_repeatedly :: "'b spm_env \<Rightarrow> nat \<Rightarrow> i32 \<Rightarrow> i32 \<Rightarrow> 'b spm_state
    \<Rightarrow> psa_status_t list \<times> 'b spm_state" where
  "close_repeatedly env 0 handle cid s = ([], s)"
| "close_repeatedly env (Suc n) handle cid s =
     (case spm_psa_close_client_id_associated env handle cid s of
        (st, s1) \<Rightarrow>
          (case close_repeatedly env n handle cid s1 of
             (sts, s2) \<Rightarrow> (st # sts, s2)))"

text \<open>The four checks of \<open>spm_psa_connect_client_id_associated\<close> that come before the
  allocation: the service exists, it is not stateless, the caller is authorized, and
  the version is supported.\<close>

definition connect_checks_pass :: "'b spm_env \<Rightarrow> u32 \<Rightarrow> u32 \<Rightarrow> i32 \<Rightarrow> bool" where
  "connect_checks_pass env sid version cid =
     (case tfm_spm_get_service_by_sid env sid of
        None \<Rightarrow> False
      | Some svc \<Rightarrow>
          \<not> SERVICE_IS_STATELESS env (service_flags env svc)
          \<and> tfm_spm_check_authorization env sid svc (sint cid < 0) = PSA_SUCCESS
          \<and> tfm_spm_check_client_version env svc version = PSA_SUCCESS)"

section \<open>Concrete configurations\<close>

text \<open>A mailbox with four slots and the IPC backend, where the RPC layer accepts every
  call and connection (so they complete later) and counts the requests it was given.\<close>

definition example_env :: "nat mailbox_env" where
  "example_env = \<lparr>
     NUM_MAILBOX_QUEUE_SLOT = 4,
     PSA_MAX_IOVEC = 4,
     CONFIG_TFM_SPM_BACKEND_IPC = True,
     CONFIG_TFM_CONNECTION_BASED_SERVICE_API = True,
     PARAM_PACK = (\<lambda>t i o'. t),
     PARAM_SET_NS_INVEC = (\<lambda>c. c),
     PARAM_SET_NS_OUTVEC = (\<lambda>c. c),
     tfm_multi_core_hal_client_id_translate = (\<lambda>c. Some c),
     tfm_rpc_psa_framework_version = (\<lambda>x. (257, x)),
     tfm_rpc_psa_version = (\<lambda>sid x. (1, x)),
     tfm_rpc_psa_call = (\<lambda>h c p m x. (PSA_SUCCESS, x + 1)),
     tfm_rpc_psa_connect = (\<lambda>sid v c m x. (PSA_SUCCESS, x + 1)),
     tfm_rpc_psa_close = (\<lambda>h c x. (PSA_SUCCESS, x + 1)),
     tfm_rpc_register_ops = (\<lambda>x. (True, x)),
     tfm_rpc_unregister_ops = (\<lambda>x. x),
     tfm_mailbox_hal_init =
       (MAILBOX_SUCCESS, 4, (\<lambda>i. \<lparr>ns_msg = zero_msg, return_val = 0\<rparr>),
        \<lparr>pend_slots = 0, replied_slots = 0\<rparr>)\<rparr>"

text \<open>The state after initialisation: every slot empty, nothing pending.\<close>

definition example_state :: "nat mailbox_state" where
  "example_state = \<lparr>
     empty_slots = 15,
     queue = (\<lambda>i. zero_slot),
     ns_slot_count = 4,
     ns_slots = (\<lambda>i. \<lparr>ns_msg = zero_msg, return_val = 0\<rparr>),
     ns_status = \<lparr>pend_slots = 0, replied_slots = 0\<rparr>,
     vectors = (\<lambda>i. zero_vectors),
     ns_mem = (\<lambda>a. 0),
     ext = 0,
     trace = []\<rparr>"

text \<open>Slot 1 holds a call in flight: two output vectors were staged from the caller's
  array at address \<open>0x1000\<close>, and the service has set their final lengths to 7 and 9.\<close>

definition staged_state :: "nat mailbox_state" where
  "staged_state = example_state\<lparr>
     empty_slots := 13,
     queue := (\<lambda>i. zero_slot)(1 := \<lparr>ns_slot_idx = 1, msg_handle = 2, msg = zero_msg\<rparr>),
     vectors := (\<lambda>i. zero_vectors)(1 :=
       \<lparr>in_vec = (\<lambda>i. zero_vec),
        out_vec = (\<lambda>i. zero_vec)(0 := \<lparr>base = 8192, len = 7\<rparr>, 1 := \<lparr>base = 12288, len = 9\<rparr>),
        original_out_vec = 4096, out_len = 2, in_use = True\<rparr>)\<rparr>"

text \<open>Two requests pending: a framework version query in slot 0 and a connect in
  slot 2.\<close>

definition pending_state :: "nat mailbox_state" where
  "pending_state = example_state\<lparr>
     ns_slots := (\<lambda>i. \<lparr>ns_msg = zero_msg, return_val = 0\<rparr>)
       (0 := \<lparr>ns_msg = zero_msg\<lparr>call_type := MAILBOX_PSA_FRAMEWORK_VERSION\<rparr>, return_val = 0\<rparr>,
        2 := \<lparr>ns_msg = zero_msg\<lparr>call_type := MAILBOX_PSA_CONNECT\<rparr>, return_val = 0\<rparr>),
     ns_status := \<lparr>pend_slots = 5, replied_slots = 0\<rparr>\<rparr>"


text \<open>One request pending: a connect in slot 2.\<close>

definition connect_pending_state :: "nat mailbox_state" where
  "connect_pending_state = example_state\<lparr>
     ns_slots := (\<lambda>i. \<lparr>ns_msg = zero_msg, return_val = 0\<rparr>)
       (2 := \<lparr>ns_msg = zero_msg\<lparr>call_type := MAILBOX_PSA_CONNECT\<rparr>, return_val = 0\<rparr>),
     ns_status := \<lparr>pend_slots = 4, replied_slots = 0\<rparr>\<rparr>"











text \<open>A request whose two lengths are in range while their sum is not.\<close>

definition oversized_params :: psa_client_params_t where
  "oversized_params = zero_params\<lparr>
     psa_call_in_vec := 4096, psa_call_in_len := 3,
     psa_call_out_vec := 8192, psa_call_out_len := 2\<rparr>"

text \<open>
  An SPM with a pool of two connections and one connection-based service, with id 7
  and at address 0 of the service table, open to every caller at version 1. Its
  allocator takes the first free block of the pool and returns the null pointer, with
  the pool as it was, when no block is free. The backend counts the messages it is
  given; \<open>failing_backend_env\<close> is the same SPM with a backend that refuses every
  message.
\<close>

definition example_allocate :: "nat spm_state \<Rightarrow> nat option \<times> nat spm_state" where
  "example_allocate s =
     (case find (\<lambda>i. \<not> pool_used s i) [0..<2] of
        None \<Rightarrow> (None, s)
      | Some c \<Rightarrow> (Some c, s\<lparr>pool_used := (pool_used s)(c := True)\<rparr>))"

definition example_init_idle :: "nat \<Rightarrow> nat \<Rightarrow> i32 \<Rightarrow> nat spm_state \<Rightarrow> nat spm_state" where
  "example_init_idle c svc cid s =
     s\<lparr>connections := (connections s)(c :=
          \<lparr>status = TFM_HANDLE_STATUS_IDLE, service = Some svc, msg_client_id = cid,
           msg_type = 0, msg_rhandle = 0\<rparr>)\<rparr>"

definition example_spm_env :: "nat spm_env" where
  "example_spm_env = \<lparr>
     tfm_spm_get_service_by_sid = (\<lambda>sid. if sid = 7 then Some 0 else None),
     service_flags = (\<lambda>svc. 0),
     SERVICE_IS_STATELESS = (\<lambda>f. f AND 1 \<noteq> 0),
     tfm_spm_check_authorization = (\<lambda>sid svc ns. PSA_SUCCESS),
     tfm_spm_check_client_version =
       (\<lambda>svc v. if v = 1 then PSA_SUCCESS else PSA_ERROR_CONNECTION_REFUSED),
     tfm_spm_is_ns_caller = (\<lambda>s. True),
     tfm_spm_get_client_id = (\<lambda>ns s. - 1),
     spm_allocate_connection = example_allocate,
     spm_init_idle_connection = example_init_idle,
     IS_STATIC_HANDLE = (\<lambda>h. False),
     spm_get_idle_connection = (\<lambda>h c s. (PSA_ERROR_PROGRAMMER_ERROR, 0)),
     backend_messaging = (\<lambda>c s. (PSA_SUCCESS, s\<lparr>backend := backend s + 1\<rparr>))\<rparr>"

definition failing_backend_env :: "nat spm_env" where
  "failing_backend_env = example_spm_env\<lparr>
     backend_messaging := (\<lambda>c s. (PSA_ERROR_CONNECTION_REFUSED, s))\<rparr>"

definition zero_connection :: connection_t where
  "zero_connection = \<lparr>status = TFM_HANDLE_STATUS_IDLE, service = None, msg_client_id = 0,
     msg_type = 0, msg_rhandle = 0\<rparr>"

definition example_spm_state :: "nat spm_state" where
  "example_spm_state = \<lparr>pool_used = (\<lambda>i. False), connections = (\<lambda>i. zero_connection),
     backend = 0\<rparr>"

definition exhausted_spm_state :: "nat spm_state" where
  "exhausted_spm_state = example_spm_state\<lparr>pool_used := (\<lambda>i. True)\<rparr>"

section \<open>The write-back loop\<close>

declare copy_back_lens.simps [simp del]



lemma copy_back_lens_bound:
  "copy_back_lens env v i mem = Inr mem' \<Longrightarrow> i < unat (out_len v) \<Longrightarrow>
   unat (out_len v) \<le> PSA_MAX_IOVEC env"
proof (induction env v i mem rule: copy_back_lens.induct)
  case (1 env v i mem)
  from "1.prems" have inb: "\<not> PSA_MAX_IOVEC env \<le> i"
    and rec: "copy_back_lens env v (i + 1)
        (mem(vec_len_addr (original_out_vec v) i := len (out_vec v i))) = Inr mem'"
    by (auto simp: copy_back_lens.simps [of env v i mem] split: if_splits)
  show ?case
  proof (cases "i + 1 < unat (out_len v)")
    case True
    then show ?thesis using "1.IH" [OF "1.prems"(2) inb rec] by simp
  next
    case False
    then show ?thesis using inb "1.prems"(2) by simp
  qed
qed


lemma copy_back_lens_total:
  "unat (out_len v) \<le> PSA_MAX_IOVEC env \<Longrightarrow> \<exists>mem'. copy_back_lens env v i mem = Inr mem'"
proof (induction env v i mem rule: copy_back_lens.induct)
  case (1 env v i mem)
  show ?case
  proof (cases "i < unat (out_len v)")
    case False
    then show ?thesis by (simp add: copy_back_lens.simps [of env v i mem])
  next
    case True
    with "1.prems" have inb: "\<not> PSA_MAX_IOVEC env \<le> i" by simp
    from "1.IH" [OF True inb "1.prems"] obtain mem' where
      "copy_back_lens env v (i + 1)
         (mem(vec_len_addr (original_out_vec v) i := len (out_vec v i))) = Inr mem'" ..
    with True inb have "copy_back_lens env v i mem = Inr mem'"
      by (subst copy_back_lens.simps) simp
    then show ?thesis by blast
  qed
qed
section \<open>Committing a reply\<close>

lemma get_nspe_reply_addr_Inr:
  "get_nspe_reply_addr env idx s = Inr n \<Longrightarrow>
     idx < NUM_MAILBOX_QUEUE_SLOT env \<and> n = ns_slot_idx (queue s idx)
     \<and> n < NUM_MAILBOX_QUEUE_SLOT env \<and> n < ns_slot_count s"
  by (auto simp: get_nspe_reply_addr_def split: if_splits)

lemma bit_push_bit_one_32:
  "idx < 32 \<Longrightarrow> bit (w OR push_bit idx (1 :: 32 word)) idx"
  by (simp add: bit_or_iff bit_exp_iff)

lemma and_push_bit_one_32:
  "idx < 32 \<Longrightarrow> (w AND push_bit idx (1 :: 32 word) \<noteq> 0) = bit w idx"
proof -
  assume lt: "idx < 32"
  have "(w AND push_bit idx 1 = 0) = (\<not> bit w idx)"
  proof
    assume z: "w AND push_bit idx 1 = 0"
    show "\<not> bit w idx"
    proof
      assume "bit w idx"
      then have "bit (w AND push_bit idx 1) idx" using lt
        by (simp add: bit_and_iff bit_exp_iff)
      with z show False by simp
    qed
  next
    assume "\<not> bit w idx"
    then show "w AND push_bit idx 1 = 0"
      by (auto intro!: bit_eqI simp: bit_and_iff bit_exp_iff)
  qed
  then show ?thesis by simp
qed

lemma mailbox_clean_queue_slot_fields:
  "idx < NUM_MAILBOX_QUEUE_SLOT env \<Longrightarrow>
     queue (mailbox_clean_queue_slot env idx s) = (queue s)(idx := zero_slot)
     \<and> empty_slots (mailbox_clean_queue_slot env idx s) = empty_slots s OR push_bit idx 1
     \<and> vectors (mailbox_clean_queue_slot env idx s) = vectors s
     \<and> ns_mem (mailbox_clean_queue_slot env idx s) = ns_mem s
     \<and> ns_slots (mailbox_clean_queue_slot env idx s) = ns_slots s
     \<and> ns_status (mailbox_clean_queue_slot env idx s) = ns_status s
     \<and> ns_slot_count (mailbox_clean_queue_slot env idx s) = ns_slot_count s
     \<and> ext (mailbox_clean_queue_slot env idx s) = ext s
     \<and> trace (mailbox_clean_queue_slot env idx s) = trace s"
  by (simp add: mailbox_clean_queue_slot_def set_spe_queue_empty_status_def)

text \<open>What a completed reply leaves behind, field by field.\<close>

lemma mailbox_direct_reply_Inr:
  assumes "mailbox_direct_reply env idx result s = Inr s'"
  shows "idx < NUM_MAILBOX_QUEUE_SLOT env"
    and "queue s' = (queue s)(idx := zero_slot)"
    and "empty_slots s' = empty_slots s OR push_bit idx 1"
    and "vectors s' = (vectors s)(idx := (vectors s idx)\<lparr>in_use := False\<rparr>)"
    and "ns_slot_count s' = ns_slot_count s"
    and "ns_status s' = ns_status s"
    and "ext s' = ext s"
    and "trace s' = trace s @ [Direct_reply idx result]"
    and "ns_slot_idx (queue s idx) < ns_slot_count s"
    and "ns_slots s' = (ns_slots s)(ns_slot_idx (queue s idx) :=
           (ns_slots s (ns_slot_idx (queue s idx)))\<lparr>return_val := result\<rparr>)"
    and "(if in_use (vectors s idx) \<and> result = PSA_SUCCESS
          then copy_back_lens env (vectors s idx) 0 (ns_mem s)
          else Inr (ns_mem s)) = Inr (ns_mem s')"
proof -
  from assms show lt: "idx < NUM_MAILBOX_QUEUE_SLOT env"
    by (auto simp: mailbox_direct_reply_def split: if_splits)
  let ?c = "if in_use (vectors s idx) \<and> result = PSA_SUCCESS
          then copy_back_lens env (vectors s idx) 0 (ns_mem s)
          else Inr (ns_mem s)"
  from assms lt obtain mem where mem: "?c = Inr mem"
    by (cases ?c) (simp_all add: mailbox_direct_reply_def)
  define s1 where "s1 = s\<lparr>ns_mem := mem,
                       vectors := (vectors s)(idx := (vectors s idx)\<lparr>in_use := False\<rparr>),
                       trace := trace s @ [Direct_reply idx result]\<rparr>"
  from assms lt mem obtain n where n: "get_nspe_reply_addr env idx s1 = Inr n"
    by (cases "get_nspe_reply_addr env idx s1")
       (simp_all add: mailbox_direct_reply_def s1_def Let_def)
  from assms lt mem n have s': "s' = mailbox_clean_queue_slot env idx
                          (s1\<lparr>ns_slots := (ns_slots s1)(n := (ns_slots s1 n)\<lparr>return_val := result\<rparr>)\<rparr>)"
    by (simp add: mailbox_direct_reply_def s1_def Let_def)
  from get_nspe_reply_addr_Inr [OF n] have nn: "n = ns_slot_idx (queue s idx)"
    and "n < ns_slot_count s"
    by (simp_all add: s1_def)
  then show "ns_slot_idx (queue s idx) < ns_slot_count s" by simp
  note f = mailbox_clean_queue_slot_fields [OF lt]
  show "queue s' = (queue s)(idx := zero_slot)" by (simp add: s' f s1_def)
  show "empty_slots s' = empty_slots s OR push_bit idx 1" by (simp add: s' f s1_def)
  show "vectors s' = (vectors s)(idx := (vectors s idx)\<lparr>in_use := False\<rparr>)"
    by (simp add: s' f s1_def)
  show "ns_slot_count s' = ns_slot_count s" by (simp add: s' f s1_def)
  show "ns_status s' = ns_status s" by (simp add: s' f s1_def)
  show "ext s' = ext s" by (simp add: s' f s1_def)
  show "trace s' = trace s @ [Direct_reply idx result]" by (simp add: s' f s1_def)
  show "ns_slots s' = (ns_slots s)(ns_slot_idx (queue s idx) :=
           (ns_slots s (ns_slot_idx (queue s idx)))\<lparr>return_val := result\<rparr>)"
    by (simp add: s' f s1_def nn)
  have "ns_mem s' = mem" by (simp add: s' f s1_def)
  with mem show "?c = Inr (ns_mem s')" by simp
qed

lemma mailbox_direct_reply_completes:
  assumes "idx < NUM_MAILBOX_QUEUE_SLOT env"
    and "ns_slot_idx (queue s idx) < NUM_MAILBOX_QUEUE_SLOT env"
    and "ns_slot_idx (queue s idx) < ns_slot_count s"
    and "unat (out_len (vectors s idx)) \<le> PSA_MAX_IOVEC env"
  shows "\<exists>s'. mailbox_direct_reply env idx result s = Inr s'"
proof -
  from copy_back_lens_total [OF assms(4)] obtain mem where
    "copy_back_lens env (vectors s idx) 0 (ns_mem s) = Inr mem" by blast
  with assms(1-3) show ?thesis
    by (simp add: mailbox_direct_reply_def get_nspe_reply_addr_def Let_def)
qed

section \<open>Staging and handles\<close>

lemma stage_out_vecs_out_vec:
  "out_vec (stage_out_vecs env p mem v) i =
     (if i < PSA_MAX_IOVEC env
      then (if i < unat (psa_call_out_len p) then read_vec mem (psa_call_out_vec p) i
            else zero_vec)
      else out_vec v i)"
proof -
  let ?g = "\<lambda>i. if i < unat (psa_call_out_len p) then read_vec mem (psa_call_out_vec p) i
                 else zero_vec"
  let ?f = "\<lambda>i v. v\<lparr>out_vec := (out_vec v)(i := ?g i)\<rparr>"
  have "out_vec (fold ?f [0..<n] v) i = (if i < n then ?g i else out_vec v i)" for n
    by (induction n) auto
  then show ?thesis by (simp add: stage_out_vecs_def)
qed

lemma stage_in_vecs_in_vec:
  "in_vec (stage_in_vecs env p mem v) i =
     (if i < PSA_MAX_IOVEC env
      then (if i < unat (psa_call_in_len p) then read_vec mem (psa_call_in_vec p) i
            else zero_vec)
      else in_vec v i)"
proof -
  let ?g = "\<lambda>i. if i < unat (psa_call_in_len p) then read_vec mem (psa_call_in_vec p) i
                 else zero_vec"
  let ?f = "\<lambda>i v. v\<lparr>in_vec := (in_vec v)(i := ?g i)\<rparr>"
  have "in_vec (fold ?f [0..<n] v) i = (if i < n then ?g i else in_vec v i)" for n
    by (induction n) auto
  then show ?thesis by (simp add: stage_in_vecs_def)
qed

lemma stage_in_vecs_out_vec:
  "out_vec (stage_in_vecs env p mem v) = out_vec v"
proof -
  let ?g = "\<lambda>i. if i < unat (psa_call_in_len p) then read_vec mem (psa_call_in_vec p) i
                 else zero_vec"
  let ?f = "\<lambda>i v. v\<lparr>in_vec := (in_vec v)(i := ?g i)\<rparr>"
  have "out_vec (fold ?f [0..<n] v) = out_vec v" for n
    by (induction n) auto
  then show ?thesis by (simp add: stage_in_vecs_def)
qed

text \<open>What a successful \<open>local_copy_vects\<close> records: the caller's output array and
  its declared length, which is in range; the entry is in use; the staged output
  vectors are the caller's below the declared length and zero above it.\<close>

lemma local_copy_vects_success:
  assumes "local_copy_vects env p idx c s = Inr (MAILBOX_SUCCESS, c', s')"
  shows "in_use (vectors s' idx)"
    and "original_out_vec (vectors s' idx) = psa_call_out_vec p"
    and "out_len (vectors s' idx) = psa_call_out_len p"
    and "unat (psa_call_out_len p) \<le> PSA_MAX_IOVEC env"
    and "i < PSA_MAX_IOVEC env \<Longrightarrow>
           out_vec (vectors s' idx) i =
             (if i < unat (psa_call_out_len p)
              then read_vec (ns_mem s) (psa_call_out_vec p) i else zero_vec)"
    and "ns_mem s' = ns_mem s"
  using assms
  by (auto simp: local_copy_vects_def Let_def stage_out_vecs_out_vec
        split: if_splits)

text \<open>A handle made from a slot index decodes to that index, and is not the null handle.\<close>

lemma handle_roundtrip:
  assumes "idx < NUM_MAILBOX_QUEUE_SLOT env" and "NUM_MAILBOX_QUEUE_SLOT env \<le> 32"
    and "get_spe_mailbox_msg_handle env idx = Inr h"
  shows "h \<noteq> MAILBOX_MSG_NULL_HANDLE \<and> get_spe_mailbox_msg_idx h = Inr idx"
proof -
  from assms have h: "h = word_of_nat (idx + 1)" and lt: "idx < 32"
    by (auto simp: get_spe_mailbox_msg_handle_def split: if_splits)
  have "unat (word_of_nat (idx + 1) :: 32 word) = (idx + 1) mod 2 ^ 32"
    by (simp only: unat_of_nat len_bit0 len_num1) simp
  with lt have "unat h = idx + 1" by (simp add: h)
  then have nz: "h \<noteq> 0" by auto
  have "h - 1 = word_of_nat idx" by (simp add: h)
  then have "(ucast (h - 1) :: u8) = word_of_nat idx"
    using lt by (simp add: unsigned_of_nat take_bit_nat_eq_self)
  then have "unat (ucast (h - 1) :: u8) = idx"
    using lt by (simp add: unat_of_nat)
  with nz show ?thesis
    by (simp add: get_spe_mailbox_msg_idx_def MAILBOX_MSG_NULL_HANDLE_def)
qed

section \<open>The staging array in the address space: lemmas\<close>










lemma in_use_byte_clear: "((x AND NOT 255) OR 0) AND 255 = (0 :: 32 word)"
  by (simp add: and.assoc)







section \<open>The drain pass\<close>

lemma staged_lens_in_range_iff:
  "staged_lens_in_range env s =
     (\<forall>i. i < NUM_MAILBOX_QUEUE_SLOT env \<longrightarrow> unat (out_len (vectors s i)) \<le> PSA_MAX_IOVEC env)"
  by (auto simp: staged_lens_in_range_def list_all_iff)

lemma local_copy_vects_Inr:
  assumes "local_copy_vects env p idx c s = Inr (ret, c', s')"
  shows "trace s' = trace s" and "queue s' = queue s"
    and "ns_slot_count s' = ns_slot_count s" and "ns_status s' = ns_status s"
    and "ext s' = ext s"
    and "staged_lens_in_range env s \<Longrightarrow> staged_lens_in_range env s'"
    and "empty_slots s' = empty_slots s" and "ns_slots s' = ns_slots s"
  using assms
  by (auto simp: local_copy_vects_def Let_def staged_lens_in_range_iff split: if_splits)

lemma local_copy_vects_completes:
  "idx < NUM_MAILBOX_QUEUE_SLOT env \<Longrightarrow>
     \<exists>ret c' s'. local_copy_vects env p idx c s = Inr (ret, c', s')"
  by (simp add: local_copy_vects_def Let_def)

lemma dispatch_finish_Inr:
  assumes "dispatch_finish env idx sync psa r s = Inr (ret, r', s')"
  shows "ret = MAILBOX_SUCCESS"
    and "ns_slot_count s' = ns_slot_count s" and "ns_status s' = ns_status s"
    and "(r' = r \<and> trace s' = trace s)
       \<or> (r' = r OR push_bit idx 1 \<and> trace s' = trace s @ [Direct_reply idx psa])"
proof -
  show "ret = MAILBOX_SUCCESS"
    using assms by (auto simp: dispatch_finish_def split: if_splits sum.splits)
  show "ns_slot_count s' = ns_slot_count s"
    using assms mailbox_direct_reply_Inr(5)
    by (fastforce simp: dispatch_finish_def split: if_splits sum.splits)
  show "ns_status s' = ns_status s"
    using assms mailbox_direct_reply_Inr(6)
    by (fastforce simp: dispatch_finish_def split: if_splits sum.splits)
  show "(r' = r \<and> trace s' = trace s)
       \<or> (r' = r OR push_bit idx 1 \<and> trace s' = trace s @ [Direct_reply idx psa])"
    using assms mailbox_direct_reply_Inr(8)
    by (fastforce simp: dispatch_finish_def split: if_splits sum.splits)
qed

lemma slot_ready_direct_reply:
  assumes "slot_ready env idx s"
  shows "\<exists>s'. mailbox_direct_reply env idx psa s = Inr s' \<and> staged_lens_in_range env s'"
proof -
  from assms have a: "idx < NUM_MAILBOX_QUEUE_SLOT env"
    "ns_slot_idx (queue s idx) < NUM_MAILBOX_QUEUE_SLOT env"
    "ns_slot_idx (queue s idx) < ns_slot_count s"
    and inv: "staged_lens_in_range env s"
    by (simp_all add: slot_ready_def)
  from inv a(1) have "unat (out_len (vectors s idx)) \<le> PSA_MAX_IOVEC env"
    by (simp add: staged_lens_in_range_iff)
  from mailbox_direct_reply_completes [OF a this] obtain s' where
    r: "mailbox_direct_reply env idx psa s = Inr s'" ..
  from mailbox_direct_reply_Inr(4) [OF r] inv have "staged_lens_in_range env s'"
    by (simp add: staged_lens_in_range_iff)
  with r show ?thesis by blast
qed

lemma dispatch_finish_completes:
  assumes "slot_ready env idx s"
  shows "\<exists>r' s'. dispatch_finish env idx sync psa r s = Inr (MAILBOX_SUCCESS, r', s')
           \<and> staged_lens_in_range env s'"
proof (cases sync)
  case True
  from slot_ready_direct_reply [OF assms] obtain s' where
    "mailbox_direct_reply env idx psa s = Inr s'" "staged_lens_in_range env s'" by blast
  with True show ?thesis by (simp add: dispatch_finish_def)
next
  case False
  with assms show ?thesis by (simp add: dispatch_finish_def slot_ready_def)
qed

text \<open>The end of a dispatch, from any state the branches of the switch reach.\<close>

lemma dispatch_finish_from:
  assumes "dispatch_finish env idx sync psa r s1 = Inr (ret, r', s')"
    and "trace s1 = t @ [Dispatched idx]"
    and "ns_slot_count s1 = n" and "ns_status s1 = st"
  shows "ns_slot_count s' = n \<and> ns_status s' = st
       \<and> ((r' = r \<and> trace s' = t @ [Dispatched idx])
          \<or> (ret = MAILBOX_SUCCESS \<and> r' = r OR push_bit idx 1
              \<and> (\<exists>x. trace s' = t @ [Dispatched idx, Direct_reply idx x])))"
  using dispatch_finish_Inr [OF assms(1)] assms(2-4) by auto

lemma tfm_mailbox_dispatch_shape:
  assumes "tfm_mailbox_dispatch env m idx r s = Inr (ret, r', s')"
  shows "(dispatch_rejects env m \<and> ret = MAILBOX_INVAL_PARAMS \<and> r' = r
          \<and> s' = s\<lparr>trace := trace s @ [Dispatched idx]\<rparr>)
       \<or> (\<not> dispatch_rejects env m
          \<and> (\<exists>sync psa s1. dispatch_finish env idx sync psa r s1 = Inr (ret, r', s')
            \<and> trace s1 = trace s @ [Dispatched idx]
            \<and> ns_slot_count s1 = ns_slot_count s \<and> ns_status s1 = ns_status s
            \<and> queue s1 = queue s \<and> empty_slots s1 = empty_slots s
            \<and> ns_slots s1 = ns_slots s))"
proof -
  let ?s = "s\<lparr>trace := trace s @ [Dispatched idx]\<rparr>"
  let ?Q = "\<lambda>s1. trace s1 = trace s @ [Dispatched idx]
            \<and> ns_slot_count s1 = ns_slot_count s \<and> ns_status s1 = ns_status s
            \<and> queue s1 = queue s \<and> empty_slots s1 = empty_slots s
            \<and> ns_slots s1 = ns_slots s
            \<and> \<not> dispatch_rejects env m"
  have fin: ?thesis if "dispatch_finish env idx sync psa r s1 = Inr (ret, r', s')" "?Q s1"
    for sync psa s1
    using that by blast
  show ?thesis
  proof (cases "call_type m")
    case MAILBOX_PSA_FRAMEWORK_VERSION
    obtain psa x where rpc: "tfm_rpc_psa_framework_version env (ext ?s) = (psa, x)"
      by (cases "tfm_rpc_psa_framework_version env (ext ?s)")
    with assms MAILBOX_PSA_FRAMEWORK_VERSION
    have "dispatch_finish env idx True psa r (?s\<lparr>ext := x\<rparr>) = Inr (ret, r', s')"
      by (simp add: tfm_mailbox_dispatch_def Let_def)
    then show ?thesis
      by (rule fin) (simp add: dispatch_rejects_def MAILBOX_PSA_FRAMEWORK_VERSION)
  next
    case MAILBOX_PSA_VERSION
    obtain psa x where rpc: "tfm_rpc_psa_version env (psa_version_sid (params m)) (ext ?s) = (psa, x)"
      by (cases "tfm_rpc_psa_version env (psa_version_sid (params m)) (ext ?s)")
    with assms MAILBOX_PSA_VERSION
    have "dispatch_finish env idx True psa r (?s\<lparr>ext := x\<rparr>) = Inr (ret, r', s')"
      by (simp add: tfm_mailbox_dispatch_def Let_def)
    then show ?thesis by (rule fin) (simp add: dispatch_rejects_def MAILBOX_PSA_VERSION)
  next
    case MAILBOX_PSA_CALL
    let ?c = "PARAM_PACK env (psa_call_type (params m)) (psa_call_in_len (params m))
                (psa_call_out_len (params m))"
    from assms MAILBOX_PSA_CALL obtain lret c' s1 where
      l: "local_copy_vects env (params m) idx ?c ?s = Inr (lret, c', s1)"
      by (cases "local_copy_vects env (params m) idx ?c ?s")
         (auto simp: tfm_mailbox_dispatch_def Let_def)
    note f = local_copy_vects_Inr [OF l]
    have Q1: "?Q s1" using f by (simp add: dispatch_rejects_def MAILBOX_PSA_CALL)
    show ?thesis
    proof (cases "lret \<noteq> MAILBOX_SUCCESS")
      case True
      with assms MAILBOX_PSA_CALL l
      have "dispatch_finish env idx True PSA_ERROR_INVALID_ARGUMENT r s1 = Inr (ret, r', s')"
        by (simp add: tfm_mailbox_dispatch_def Let_def)
      then show ?thesis using Q1 by (rule fin)
    next
      case ok: False
      show ?thesis
      proof (cases "tfm_multi_core_hal_client_id_translate env (client_id m)")
        case None
        with assms MAILBOX_PSA_CALL l ok
        have "dispatch_finish env idx True PSA_ERROR_INVALID_ARGUMENT r s1 = Inr (ret, r', s')"
          by (simp add: tfm_mailbox_dispatch_def Let_def)
        then show ?thesis using Q1 by (rule fin)
      next
        case (Some cid)
        obtain psa x where rpc: "tfm_rpc_psa_call env (psa_call_handle (params m)) c'
              \<lparr>ns_client_id_stateless = cid, p_vecs_slot = idx\<rparr>
              (msg_handle (queue ?s idx)) (ext s1) = (psa, x)"
          by (cases "tfm_rpc_psa_call env (psa_call_handle (params m)) c'
              \<lparr>ns_client_id_stateless = cid, p_vecs_slot = idx\<rparr>
              (msg_handle (queue ?s idx)) (ext s1)")
        with assms MAILBOX_PSA_CALL l ok Some
        have "dispatch_finish env idx (\<not> CONFIG_TFM_SPM_BACKEND_IPC env \<or> psa \<noteq> PSA_SUCCESS)
                psa r (s1\<lparr>ext := x\<rparr>) = Inr (ret, r', s')"
          by (simp add: tfm_mailbox_dispatch_def Let_def)
        then show ?thesis by (rule fin) (simp add: Q1)
      qed
    qed
  next
    case MAILBOX_PSA_CONNECT
    show ?thesis
    proof (cases "CONFIG_TFM_CONNECTION_BASED_SERVICE_API env")
      case False
      with assms MAILBOX_PSA_CONNECT show ?thesis
        by (simp add: tfm_mailbox_dispatch_def Let_def dispatch_rejects_def)
    next
      case on: True
      then have nr: "\<not> dispatch_rejects env m"
        by (simp add: dispatch_rejects_def MAILBOX_PSA_CONNECT)
      show ?thesis
      proof (cases "tfm_multi_core_hal_client_id_translate env (client_id m)")
        case None
        with assms MAILBOX_PSA_CONNECT on
        have "dispatch_finish env idx True PSA_ERROR_INVALID_ARGUMENT r ?s = Inr (ret, r', s')"
          by (simp add: tfm_mailbox_dispatch_def Let_def)
        then show ?thesis by (rule fin) (simp add: nr)
      next
        case (Some cid)
        obtain psa x where rpc: "tfm_rpc_psa_connect env (psa_connect_sid (params m))
              (psa_connect_version (params m)) cid (msg_handle (queue ?s idx)) (ext ?s) = (psa, x)"
          by (cases "tfm_rpc_psa_connect env (psa_connect_sid (params m))
              (psa_connect_version (params m)) cid (msg_handle (queue ?s idx)) (ext ?s)")
        with assms MAILBOX_PSA_CONNECT on Some
        have "dispatch_finish env idx (\<not> CONFIG_TFM_SPM_BACKEND_IPC env \<or> psa \<noteq> PSA_SUCCESS)
                psa r (?s\<lparr>ext := x\<rparr>) = Inr (ret, r', s')"
          by (simp add: tfm_mailbox_dispatch_def Let_def)
        then show ?thesis by (rule fin) (simp add: nr)
      qed
    qed
  next
    case MAILBOX_PSA_CLOSE
    show ?thesis
    proof (cases "CONFIG_TFM_CONNECTION_BASED_SERVICE_API env")
      case False
      with assms MAILBOX_PSA_CLOSE show ?thesis
        by (simp add: tfm_mailbox_dispatch_def Let_def dispatch_rejects_def)
    next
      case on: True
      then have nr: "\<not> dispatch_rejects env m"
        by (simp add: dispatch_rejects_def MAILBOX_PSA_CLOSE)
      show ?thesis
      proof (cases "tfm_multi_core_hal_client_id_translate env (client_id m)")
        case None
        with assms MAILBOX_PSA_CLOSE on
        have "dispatch_finish env idx True PSA_ERROR_INVALID_ARGUMENT r ?s = Inr (ret, r', s')"
          by (simp add: tfm_mailbox_dispatch_def Let_def)
        then show ?thesis by (rule fin) (simp add: nr)
      next
        case (Some cid)
        obtain psa x where rpc: "tfm_rpc_psa_close env (psa_close_handle (params m)) cid
              (ext ?s) = (psa, x)"
          by (cases "tfm_rpc_psa_close env (psa_close_handle (params m)) cid (ext ?s)")
        with assms MAILBOX_PSA_CLOSE on Some
        have "dispatch_finish env idx (\<not> CONFIG_TFM_SPM_BACKEND_IPC env \<or> psa \<noteq> PSA_SUCCESS)
                psa r (?s\<lparr>ext := x\<rparr>) = Inr (ret, r', s')"
          by (simp add: tfm_mailbox_dispatch_def Let_def)
        then show ?thesis by (rule fin) (simp add: nr)
      qed
    qed
  next
    case (MAILBOX_UNKNOWN_CALL t)
    with assms show ?thesis
      by (simp add: tfm_mailbox_dispatch_def Let_def dispatch_rejects_def)
  qed
qed

lemma tfm_mailbox_dispatch_Inr:
  assumes "tfm_mailbox_dispatch env m idx r s = Inr (ret, r', s')"
  shows "ns_slot_count s' = ns_slot_count s \<and> ns_status s' = ns_status s
       \<and> ((r' = r \<and> trace s' = trace s @ [Dispatched idx])
          \<or> (ret = MAILBOX_SUCCESS \<and> r' = r OR push_bit idx 1
              \<and> (\<exists>x. trace s' = trace s @ [Dispatched idx, Direct_reply idx x])))"
  using tfm_mailbox_dispatch_shape [OF assms]
proof (elim disjE exE conjE)
  assume "r' = r" "s' = s\<lparr>trace := trace s @ [Dispatched idx]\<rparr>"
  then show ?thesis by simp
next
  fix sync psa s1
  assume "dispatch_finish env idx sync psa r s1 = Inr (ret, r', s')"
    "trace s1 = trace s @ [Dispatched idx]"
    "ns_slot_count s1 = ns_slot_count s" "ns_status s1 = ns_status s"
  from dispatch_finish_from [OF this] show ?thesis .
qed

lemma slot_ready_frame:
  assumes "slot_ready env idx s"
    and "queue s1 = queue s" and "ns_slot_count s1 = ns_slot_count s"
    and "staged_lens_in_range env s1"
  shows "slot_ready env idx s1"
  using assms by (simp add: slot_ready_def)

lemma tfm_mailbox_dispatch_completes:
  assumes "slot_ready env idx s"
  shows "\<exists>ret r' s'. tfm_mailbox_dispatch env m idx r s = Inr (ret, r', s')
           \<and> staged_lens_in_range env s'"
proof -
  let ?s = "s\<lparr>trace := trace s @ [Dispatched idx]\<rparr>"
  from assms have inv: "staged_lens_in_range env s" and lt: "idx < NUM_MAILBOX_QUEUE_SLOT env"
    by (simp_all add: slot_ready_def)
  have inv': "staged_lens_in_range env ?s"
    using inv by (simp add: staged_lens_in_range_def)
  have rdy: "slot_ready env idx (s1\<lparr>ext := x\<rparr>)"
    if "queue s1 = queue s" "ns_slot_count s1 = ns_slot_count s" "staged_lens_in_range env s1"
    for s1 :: "'a mailbox_state" and x
    using that by (intro slot_ready_frame [OF assms]) (simp_all add: staged_lens_in_range_def)
  have rdy0: "slot_ready env idx s1"
    if "queue s1 = queue s" "ns_slot_count s1 = ns_slot_count s" "staged_lens_in_range env s1"
    for s1 :: "'a mailbox_state"
    using that by (intro slot_ready_frame [OF assms])
  show ?thesis
  proof (cases "call_type m")
    case MAILBOX_PSA_FRAMEWORK_VERSION
    obtain psa x where rpc: "tfm_rpc_psa_framework_version env (ext ?s) = (psa, x)"
      by (cases "tfm_rpc_psa_framework_version env (ext ?s)")
    have "slot_ready env idx (?s\<lparr>ext := x\<rparr>)" using inv' by (intro rdy) simp_all
    from dispatch_finish_completes [OF this, of True psa r] rpc MAILBOX_PSA_FRAMEWORK_VERSION
    show ?thesis by (simp add: tfm_mailbox_dispatch_def Let_def) blast
  next
    case MAILBOX_PSA_VERSION
    obtain psa x where rpc: "tfm_rpc_psa_version env (psa_version_sid (params m)) (ext ?s) = (psa, x)"
      by (cases "tfm_rpc_psa_version env (psa_version_sid (params m)) (ext ?s)")
    have "slot_ready env idx (?s\<lparr>ext := x\<rparr>)" using inv' by (intro rdy) simp_all
    from dispatch_finish_completes [OF this, of True psa r] rpc MAILBOX_PSA_VERSION
    show ?thesis by (simp add: tfm_mailbox_dispatch_def Let_def) blast
  next
    case MAILBOX_PSA_CALL
    let ?c = "PARAM_PACK env (psa_call_type (params m)) (psa_call_in_len (params m))
                (psa_call_out_len (params m))"
    from local_copy_vects_completes [OF lt] obtain lret c' s1 where
      l: "local_copy_vects env (params m) idx ?c ?s = Inr (lret, c', s1)" by blast
    note f = local_copy_vects_Inr [OF l]
    have q1: "queue s1 = queue s" "ns_slot_count s1 = ns_slot_count s"
      "staged_lens_in_range env s1"
      using f inv' by simp_all
    show ?thesis
    proof (cases "lret \<noteq> MAILBOX_SUCCESS")
      case True
      from dispatch_finish_completes [OF rdy0 [OF q1], of True PSA_ERROR_INVALID_ARGUMENT r]
        MAILBOX_PSA_CALL l True
      show ?thesis by (simp add: tfm_mailbox_dispatch_def Let_def) blast
    next
      case ok: False
      show ?thesis
      proof (cases "tfm_multi_core_hal_client_id_translate env (client_id m)")
        case None
        from dispatch_finish_completes [OF rdy0 [OF q1], of True PSA_ERROR_INVALID_ARGUMENT r]
          MAILBOX_PSA_CALL l ok None
        show ?thesis by (simp add: tfm_mailbox_dispatch_def Let_def) blast
      next
        case (Some cid)
        obtain psa x where rpc: "tfm_rpc_psa_call env (psa_call_handle (params m)) c'
              \<lparr>ns_client_id_stateless = cid, p_vecs_slot = idx\<rparr>
              (msg_handle (queue ?s idx)) (ext s1) = (psa, x)"
          by (cases "tfm_rpc_psa_call env (psa_call_handle (params m)) c'
              \<lparr>ns_client_id_stateless = cid, p_vecs_slot = idx\<rparr>
              (msg_handle (queue ?s idx)) (ext s1)")
        from dispatch_finish_completes [OF rdy [OF q1],
            of "\<not> CONFIG_TFM_SPM_BACKEND_IPC env \<or> psa \<noteq> PSA_SUCCESS" psa r x]
          MAILBOX_PSA_CALL l ok Some rpc
        show ?thesis by (simp add: tfm_mailbox_dispatch_def Let_def) blast
      qed
    qed
  next
    case MAILBOX_PSA_CONNECT
    show ?thesis
    proof (cases "CONFIG_TFM_CONNECTION_BASED_SERVICE_API env")
      case False
      with MAILBOX_PSA_CONNECT inv' show ?thesis
        by (simp add: tfm_mailbox_dispatch_def Let_def)
    next
      case on: True
      show ?thesis
      proof (cases "tfm_multi_core_hal_client_id_translate env (client_id m)")
        case None
        have "slot_ready env idx ?s" using inv' by (intro rdy0) simp_all
        from dispatch_finish_completes [OF this, of True PSA_ERROR_INVALID_ARGUMENT r]
          MAILBOX_PSA_CONNECT on None
        show ?thesis by (simp add: tfm_mailbox_dispatch_def Let_def) blast
      next
        case (Some cid)
        obtain psa x where rpc: "tfm_rpc_psa_connect env (psa_connect_sid (params m))
              (psa_connect_version (params m)) cid (msg_handle (queue ?s idx)) (ext ?s) = (psa, x)"
          by (cases "tfm_rpc_psa_connect env (psa_connect_sid (params m))
              (psa_connect_version (params m)) cid (msg_handle (queue ?s idx)) (ext ?s)")
        have "slot_ready env idx (?s\<lparr>ext := x\<rparr>)" using inv' by (intro rdy) simp_all
        from dispatch_finish_completes [OF this,
            of "\<not> CONFIG_TFM_SPM_BACKEND_IPC env \<or> psa \<noteq> PSA_SUCCESS" psa r]
          MAILBOX_PSA_CONNECT on Some rpc
        show ?thesis by (simp add: tfm_mailbox_dispatch_def Let_def) blast
      qed
    qed
  next
    case MAILBOX_PSA_CLOSE
    show ?thesis
    proof (cases "CONFIG_TFM_CONNECTION_BASED_SERVICE_API env")
      case False
      with MAILBOX_PSA_CLOSE inv' show ?thesis
        by (simp add: tfm_mailbox_dispatch_def Let_def)
    next
      case on: True
      show ?thesis
      proof (cases "tfm_multi_core_hal_client_id_translate env (client_id m)")
        case None
        have "slot_ready env idx ?s" using inv' by (intro rdy0) simp_all
        from dispatch_finish_completes [OF this, of True PSA_ERROR_INVALID_ARGUMENT r]
          MAILBOX_PSA_CLOSE on None
        show ?thesis by (simp add: tfm_mailbox_dispatch_def Let_def) blast
      next
        case (Some cid)
        obtain psa x where rpc: "tfm_rpc_psa_close env (psa_close_handle (params m)) cid
              (ext ?s) = (psa, x)"
          by (cases "tfm_rpc_psa_close env (psa_close_handle (params m)) cid (ext ?s)")
        have "slot_ready env idx (?s\<lparr>ext := x\<rparr>)" using inv' by (intro rdy) simp_all
        from dispatch_finish_completes [OF this,
            of "\<not> CONFIG_TFM_SPM_BACKEND_IPC env \<or> psa \<noteq> PSA_SUCCESS" psa r]
          MAILBOX_PSA_CLOSE on Some rpc
        show ?thesis by (simp add: tfm_mailbox_dispatch_def Let_def) blast
      qed
    qed
  next
    case (MAILBOX_UNKNOWN_CALL t)
    with inv' show ?thesis
      by (simp add: tfm_mailbox_dispatch_def Let_def)
  qed
qed

text \<open>The state in which the drain loop calls \<open>tfm_mailbox_dispatch\<close> for slot \<open>idx\<close>.\<close>

lemma handle_slot_unfold:
  assumes "idx < NUM_MAILBOX_QUEUE_SLOT env"
  shows "\<exists>s4. trace s4 = trace s \<and> ns_slot_count s4 = ns_slot_count s
           \<and> ns_status s4 = ns_status s \<and> vectors s4 = vectors s
           \<and> ns_slot_idx (queue s4 idx) = idx
           \<and> handle_slot env idx r s =
               (case tfm_mailbox_dispatch env (msg (queue s4 idx)) idx r s4 of
                  Inl f \<Rightarrow> Inl f
                | Inr (ret, r', s5) \<Rightarrow>
                    if ret \<noteq> MAILBOX_SUCCESS
                    then Inr (r', clean_rejected_slot env idx s5)
                    else Inr (r', s5))"
proof -
  let ?s4 = "s\<lparr>empty_slots := empty_slots s AND NOT (push_bit idx 1),
                queue := (queue s)(idx := (queue s idx)\<lparr>ns_slot_idx := idx,
                  msg := ns_msg (ns_slots s idx), msg_handle := word_of_nat (idx + 1)\<rparr>)\<rparr>"
  show ?thesis
    by (rule exI [of _ ?s4])
       (use assms in \<open>simp add: handle_slot_def Let_def check_mailbox_msg_def
          get_spe_mailbox_msg_handle_def clear_spe_queue_empty_status_def\<close>)
qed

lemma clean_rejected_slot_fields:
  "idx < NUM_MAILBOX_QUEUE_SLOT env \<Longrightarrow>
     trace (clean_rejected_slot env idx s) = trace s @ [Cleaned idx]
     \<and> ns_slot_count (clean_rejected_slot env idx s) = ns_slot_count s
     \<and> ns_status (clean_rejected_slot env idx s) = ns_status s
     \<and> vectors (clean_rejected_slot env idx s) = vectors s"
  by (simp add: clean_rejected_slot_def mailbox_clean_queue_slot_fields)

lemma handle_slot_Inr:
  assumes "handle_slot env idx r s = Inr (r', s')"
  shows "ns_slot_count s' = ns_slot_count s \<and> ns_status s' = ns_status s
       \<and> (\<exists>es. trace s' = trace s @ Dispatched idx # es
            \<and> list_all is_slot_event es \<and> dispatched_slots es = []
            \<and> ((r' = r \<and> \<not> list_ex is_direct_reply es)
               \<or> (r' = r OR push_bit idx 1 \<and> list_ex is_direct_reply es)))"
proof -
  from assms have lt: "idx < NUM_MAILBOX_QUEUE_SLOT env"
    by (auto simp: handle_slot_def split: if_splits)
  from handle_slot_unfold [OF lt, of s r] obtain s4 where
    s4: "trace s4 = trace s" "ns_slot_count s4 = ns_slot_count s" "ns_status s4 = ns_status s"
    and h: "handle_slot env idx r s =
               (case tfm_mailbox_dispatch env (msg (queue s4 idx)) idx r s4 of
                  Inl f \<Rightarrow> Inl f
                | Inr (ret, r', s5) \<Rightarrow>
                    if ret \<noteq> MAILBOX_SUCCESS
                    then Inr (r', clean_rejected_slot env idx s5)
                    else Inr (r', s5))"
    by blast
  from assms h obtain ret r5 s5 where
    d: "tfm_mailbox_dispatch env (msg (queue s4 idx)) idx r s4 = Inr (ret, r5, s5)"
    by (cases "tfm_mailbox_dispatch env (msg (queue s4 idx)) idx r s4") auto
  from assms h d have r': "r' = r5"
    and s': "s' = (if ret \<noteq> MAILBOX_SUCCESS then clean_rejected_slot env idx s5 else s5)"
    by (auto split: if_splits)
  from tfm_mailbox_dispatch_Inr [OF d] s4
  have n5: "ns_slot_count s5 = ns_slot_count s" "ns_status s5 = ns_status s"
    and t5: "(r5 = r \<and> trace s5 = trace s @ [Dispatched idx])
          \<or> (ret = MAILBOX_SUCCESS \<and> r5 = r OR push_bit idx 1
              \<and> (\<exists>x. trace s5 = trace s @ [Dispatched idx, Direct_reply idx x]))"
    by simp_all
  note c = clean_rejected_slot_fields [OF lt, of s5]
  have "ns_slot_count s' = ns_slot_count s \<and> ns_status s' = ns_status s"
    using n5 c by (simp add: s')
  moreover from t5 have "\<exists>es. trace s' = trace s @ Dispatched idx # es
            \<and> list_all is_slot_event es \<and> dispatched_slots es = []
            \<and> ((r' = r \<and> \<not> list_ex is_direct_reply es)
               \<or> (r' = r OR push_bit idx 1 \<and> list_ex is_direct_reply es))"
  proof (elim disjE conjE exE)
    assume a: "r5 = r" "trace s5 = trace s @ [Dispatched idx]"
    show ?thesis
    proof (cases "ret \<noteq> MAILBOX_SUCCESS")
      case True
      with a c have "trace s' = trace s @ Dispatched idx # [Cleaned idx]" by (simp add: s')
      with a r' show ?thesis by (intro exI [of _ "[Cleaned idx]"]) simp
    next
      case False
      with a have "trace s' = trace s @ Dispatched idx # []" by (simp add: s')
      with a r' show ?thesis by (intro exI [of _ "[]"]) simp
    qed
  next
    fix x
    assume a: "ret = MAILBOX_SUCCESS" "r5 = r OR push_bit idx 1"
      "trace s5 = trace s @ [Dispatched idx, Direct_reply idx x]"
    then have "trace s' = trace s @ Dispatched idx # [Direct_reply idx x]" by (simp add: s')
    with a r' show ?thesis by (intro exI [of _ "[Direct_reply idx x]"]) simp
  qed
  ultimately show ?thesis by simp
qed

lemma handle_slot_completes:
  assumes "idx < NUM_MAILBOX_QUEUE_SLOT env" and "idx < ns_slot_count s"
    and "staged_lens_in_range env s"
  shows "\<exists>r' s'. handle_slot env idx r s = Inr (r', s') \<and> staged_lens_in_range env s'"
proof -
  from handle_slot_unfold [OF assms(1), of s r] obtain s4 where
    s4: "ns_slot_count s4 = ns_slot_count s" "vectors s4 = vectors s"
      "ns_slot_idx (queue s4 idx) = idx"
    and h: "handle_slot env idx r s =
               (case tfm_mailbox_dispatch env (msg (queue s4 idx)) idx r s4 of
                  Inl f \<Rightarrow> Inl f
                | Inr (ret, r', s5) \<Rightarrow>
                    if ret \<noteq> MAILBOX_SUCCESS
                    then Inr (r', clean_rejected_slot env idx s5)
                    else Inr (r', s5))"
    by blast
  have "slot_ready env idx s4"
    using assms s4 by (simp add: slot_ready_def staged_lens_in_range_def)
  from tfm_mailbox_dispatch_completes [OF this, of "msg (queue s4 idx)" r]
  obtain ret r5 s5 where
    d: "tfm_mailbox_dispatch env (msg (queue s4 idx)) idx r s4 = Inr (ret, r5, s5)"
    and i5: "staged_lens_in_range env s5" by blast
  have "staged_lens_in_range env (clean_rejected_slot env idx s5)"
    using i5 clean_rejected_slot_fields [OF assms(1), of s5]
    by (simp add: staged_lens_in_range_def)
  with h d i5 show ?thesis by simp
qed

declare handle_msg_loop.simps [simp del]

lemma dispatched_slots_append:
  "dispatched_slots (es @ fs) = dispatched_slots es @ dispatched_slots fs"
  by (induction es rule: dispatched_slots.induct) simp_all

lemma notify_count_slot_events:
  "list_all is_slot_event es \<Longrightarrow> notify_count es = 0"
  by (induction es) (auto simp: notify_count_def)

lemma or_push_bit_one_nonzero:
  "idx < 32 \<Longrightarrow> r OR push_bit idx (1 :: 32 word) \<noteq> 0"
proof
  assume "idx < 32" and z: "r OR push_bit idx (1 :: 32 word) = 0"
  from bit_push_bit_one_32 [OF \<open>idx < 32\<close>, of r] z show False by simp
qed

lemma handle_msg_loop_Inr:
  "handle_msg_loop env pend idx r s = Inr (r', s') \<Longrightarrow>
     ns_slot_count s' = ns_slot_count s \<and> ns_status s' = ns_status s
     \<and> (\<exists>es. trace s' = trace s @ es \<and> list_all is_slot_event es
          \<and> dispatched_slots es
              = filter (\<lambda>i. pend AND push_bit i 1 \<noteq> 0) [idx..<ns_slot_count s]
          \<and> ((r' = 0) = (r = 0 \<and> \<not> list_ex is_direct_reply es)))"
proof (induction env pend idx r s rule: handle_msg_loop.induct)
  case (1 env pend idx r s)
  let ?n = "ns_slot_count s"
  let ?f = "\<lambda>i. pend AND push_bit i 1 \<noteq> 0"
  show ?case
  proof (cases "idx < ?n")
    case False
    with "1.prems" have "r' = r" "s' = s"
      by (simp_all add: handle_msg_loop.simps [of env pend idx r s])
    with False show ?thesis by simp
  next
    case True
    with "1.prems" have n32: "\<not> 32 \<le> idx"
      by (auto simp: handle_msg_loop.simps [of env pend idx r s] split: if_splits)
    from True have upt: "[idx..<?n] = idx # [idx + 1..<?n]"
      by (simp add: upt_conv_Cons)
    show ?thesis
    proof (cases "pend AND push_bit idx 1 = 0")
      case z: True
      with "1.prems" True n32 have "handle_msg_loop env pend (idx + 1) r s = Inr (r', s')"
        by (simp add: handle_msg_loop.simps [of env pend idx r s])
      from "1.IH"(1) [OF True n32 z this] z show ?thesis
        by (simp add: upt)
    next
      case nz: False
      from "1.prems" True n32 nz obtain r1 s1 where
        hs: "handle_slot env idx r s = Inr (r1, s1)"
        by (cases "handle_slot env idx r s")
           (auto simp: handle_msg_loop.simps [of env pend idx r s])
      with "1.prems" True n32 nz have
        rec: "handle_msg_loop env pend (idx + 1) r1 s1 = Inr (r', s')"
        by (simp add: handle_msg_loop.simps [of env pend idx r s])
      from handle_slot_Inr [OF hs] obtain es1 where
        n1: "ns_slot_count s1 = ?n" "ns_status s1 = ns_status s"
        and t1: "trace s1 = trace s @ Dispatched idx # es1"
        and e1: "list_all is_slot_event es1" "dispatched_slots es1 = []"
        and r1: "(r1 = r \<and> \<not> list_ex is_direct_reply es1)
               \<or> (r1 = r OR push_bit idx 1 \<and> list_ex is_direct_reply es1)"
        by blast
      from "1.IH"(2) [OF True n32 nz hs refl rec] obtain es2 where
        n2: "ns_slot_count s' = ns_slot_count s1" "ns_status s' = ns_status s1"
        and t2: "trace s' = trace s1 @ es2"
        and e2: "list_all is_slot_event es2"
          "dispatched_slots es2 = filter ?f [idx + 1..<ns_slot_count s1]"
        and r2: "(r' = 0) = (r1 = 0 \<and> \<not> list_ex is_direct_reply es2)"
        by blast
      let ?es = "Dispatched idx # es1 @ es2"
      have "trace s' = trace s @ ?es" using t1 t2 by simp
      moreover have "list_all is_slot_event ?es" using e1 e2 by simp
      moreover have "dispatched_slots ?es = filter ?f [idx..<?n]"
        using e1 e2 n1 nz by (simp add: upt dispatched_slots_append)
      moreover have "(r' = 0) = (r = 0 \<and> \<not> list_ex is_direct_reply ?es)"
      proof -
        from n32 have "idx < 32" by simp
        from or_push_bit_one_nonzero [OF this, of r] r1 r2 show ?thesis by auto
      qed
      ultimately have "\<exists>es. trace s' = trace s @ es \<and> list_all is_slot_event es
          \<and> dispatched_slots es = filter ?f [idx..<?n]
          \<and> ((r' = 0) = (r = 0 \<and> \<not> list_ex is_direct_reply es))"
        by (intro exI [of _ ?es] conjI)
      with n1 n2 show ?thesis by simp
    qed
  qed
qed

lemma handle_msg_loop_completes:
  "ns_slot_count s \<le> NUM_MAILBOX_QUEUE_SLOT env \<Longrightarrow> NUM_MAILBOX_QUEUE_SLOT env \<le> 32 \<Longrightarrow>
   staged_lens_in_range env s \<Longrightarrow>
   \<exists>r' s'. handle_msg_loop env pend idx r s = Inr (r', s') \<and> staged_lens_in_range env s'"
proof (induction env pend idx r s rule: handle_msg_loop.induct)
  case (1 env pend idx r s)
  show ?case
  proof (cases "idx < ns_slot_count s")
    case False
    with "1.prems"(3) show ?thesis
      by (simp add: handle_msg_loop.simps [of env pend idx r s])
  next
    case True
    with "1.prems" have n32: "\<not> 32 \<le> idx" and lt: "idx < NUM_MAILBOX_QUEUE_SLOT env"
      by simp_all
    show ?thesis
    proof (cases "pend AND push_bit idx 1 = 0")
      case z: True
      from "1.IH"(1) [OF True n32 z "1.prems"] True n32 z show ?thesis
        by (simp add: handle_msg_loop.simps [of env pend idx r s])
    next
      case nz: False
      from handle_slot_completes [OF lt True "1.prems"(3), of r] obtain r1 s1 where
        hs: "handle_slot env idx r s = Inr (r1, s1)" and i1: "staged_lens_in_range env s1"
        by blast
      from handle_slot_Inr [OF hs] have "ns_slot_count s1 = ns_slot_count s" by simp
      with "1.prems" have "ns_slot_count s1 \<le> NUM_MAILBOX_QUEUE_SLOT env" by simp
      from "1.IH"(2) [OF True n32 nz hs refl this "1.prems"(2) i1] True n32 nz hs
      show ?thesis
        by (simp add: handle_msg_loop.simps [of env pend idx r s])
    qed
  qed
qed

text \<open>A completed drain pass with a snapshot that is not zero.\<close>

lemma tfm_mailbox_handle_msg_Inr:
  assumes "pend_slots (ns_status s) \<noteq> 0"
    and "tfm_mailbox_handle_msg env s = Inr (ret, s')"
  obtains es r' where "ret = MAILBOX_SUCCESS"
    and "new_events s s' = es @ Pend_cleared (pend_slots (ns_status s))
                  # (if r' \<noteq> 0 then [Notify_peer] else [])"
    and "list_all is_slot_event es"
    and "dispatched_slots es
                = filter (\<lambda>i. pend_slots (ns_status s) AND push_bit i 1 \<noteq> 0)
                    [0..<ns_slot_count s]"
    and "(r' = 0) = (\<not> list_ex is_direct_reply es)"
    and "pend_slots (ns_status s')
                = pend_slots (ns_status s) AND NOT (pend_slots (ns_status s))"
    and "replied_slots (ns_status s') = replied_slots (ns_status s) OR r'"
    and "ns_slot_count s' = ns_slot_count s"
proof -
  let ?pend = "pend_slots (ns_status s)"
  from assms obtain r' s1 where l: "handle_msg_loop env ?pend 0 0 s = Inr (r', s1)"
    by (cases "handle_msg_loop env ?pend 0 0 s")
       (auto simp: tfm_mailbox_handle_msg_def get_nspe_queue_pend_status_def Let_def)
  from handle_msg_loop_Inr [OF l] obtain es where
    n1: "ns_slot_count s1 = ns_slot_count s" "ns_status s1 = ns_status s"
    and t1: "trace s1 = trace s @ es"
    and e1: "list_all is_slot_event es"
      "dispatched_slots es = filter (\<lambda>i. ?pend AND push_bit i 1 \<noteq> 0) [0..<ns_slot_count s]"
    and r1: "(r' = 0) = (\<not> list_ex is_direct_reply es)"
    by auto
  from assms l have ret: "ret = MAILBOX_SUCCESS"
    by (simp add: tfm_mailbox_handle_msg_def get_nspe_queue_pend_status_def Let_def)
  from assms l have s': "s' =
      (let s2 = s1\<lparr>ns_status := clear_nspe_queue_pend_status ?pend (ns_status s1),
                     trace := trace s1 @ [Pend_cleared ?pend]\<rparr>;
           s3 = s2\<lparr>ns_status := set_nspe_queue_replied_status r' (ns_status s2)\<rparr>
       in if r' \<noteq> 0 then tfm_mailbox_hal_notify_peer s3 else s3)"
    by (simp add: tfm_mailbox_handle_msg_def get_nspe_queue_pend_status_def Let_def)
  have ev: "new_events s s' = es @ Pend_cleared ?pend # (if r' \<noteq> 0 then [Notify_peer] else [])"
    by (simp add: s' new_events_def t1 Let_def tfm_mailbox_hal_notify_peer_def)
  have st: "pend_slots (ns_status s') = ?pend AND NOT ?pend"
    "replied_slots (ns_status s') = replied_slots (ns_status s) OR r'"
    "ns_slot_count s' = ns_slot_count s"
    by (simp_all add: s' Let_def tfm_mailbox_hal_notify_peer_def n1
          clear_nspe_queue_pend_status_def set_nspe_queue_replied_status_def)
  show ?thesis by (rule that [OF ret ev e1 r1 st])
qed

lemma tfm_mailbox_handle_msg_completes:
  assumes "NUM_MAILBOX_QUEUE_SLOT env \<le> 32"
    and "ns_slot_count s \<le> NUM_MAILBOX_QUEUE_SLOT env"
    and "staged_lens_in_range env s"
  shows "\<exists>ret s'. tfm_mailbox_handle_msg env s = Inr (ret, s') \<and> staged_lens_in_range env s'"
proof -
  from handle_msg_loop_completes [OF assms(2,1,3), of "pend_slots (ns_status s)" 0 0]
  obtain r' s1 where "handle_msg_loop env (pend_slots (ns_status s)) 0 0 s = Inr (r', s1)"
    and "staged_lens_in_range env s1"
    by blast
  with assms(3) show ?thesis
    by (simp add: tfm_mailbox_handle_msg_def get_nspe_queue_pend_status_def Let_def
          tfm_mailbox_hal_notify_peer_def staged_lens_in_range_def)
qed

text \<open>The bound on the staged lengths holds of the zeroed array and is kept by a
  delivered reply, as it is by a drain pass.\<close>

lemma staged_lens_in_range_zeroed:
  "vectors s = (\<lambda>i. zero_vectors) \<Longrightarrow> staged_lens_in_range env s"
  by (simp add: staged_lens_in_range_iff zero_vectors_def)

lemma tfm_mailbox_reply_msg_keeps_staged_lens:
  assumes "tfm_mailbox_reply_msg env handle reply s = Inr (ret, s')"
    and "staged_lens_in_range env s"
  shows "staged_lens_in_range env s'"
proof -
  let ?idx = "if handle = MAILBOX_MSG_NULL_HANDLE then 0 else unat (ucast (handle - 1) :: u8)"
  show ?thesis
  proof (cases "get_spe_queue_empty_status env ?idx s")
    case True
    with assms show ?thesis
      by (auto simp: tfm_mailbox_reply_msg_def get_spe_mailbox_msg_idx_def split: if_splits)
  next
    case False
    with assms(1) obtain s1 where r: "mailbox_direct_reply env ?idx reply s = Inr s1"
      and s': "s' = tfm_mailbox_hal_notify_peer
                       (s1\<lparr>ns_status :=
                            set_nspe_queue_replied_status (push_bit ?idx 1) (ns_status s1)\<rparr>)"
      by (cases "mailbox_direct_reply env ?idx reply s")
         (auto simp: tfm_mailbox_reply_msg_def get_spe_mailbox_msg_idx_def split: if_splits)
    from mailbox_direct_reply_Inr(4) [OF r] assms(2) have "staged_lens_in_range env s1"
      by (simp add: staged_lens_in_range_iff)
    then show ?thesis
      by (simp add: s' tfm_mailbox_hal_notify_peer_def staged_lens_in_range_def)
  qed
qed

lemma example_drain_pass:
  "\<exists>s'. tfm_mailbox_handle_msg example_env pending_state = Inr (MAILBOX_SUCCESS, s')
     \<and> trace s' = [Dispatched 0, Direct_reply 0 257, Dispatched 2, Pend_cleared 5, Notify_peer]"
  by (simp add: tfm_mailbox_handle_msg_def get_nspe_queue_pend_status_def Let_def
        handle_msg_loop.simps handle_slot_def example_env_def pending_state_def example_state_def
        clear_spe_queue_empty_status_def check_mailbox_msg_def get_spe_mailbox_msg_handle_def
        tfm_mailbox_dispatch_def dispatch_finish_def mailbox_direct_reply_def
        get_nspe_reply_addr_def mailbox_clean_queue_slot_def set_spe_queue_empty_status_def
        zero_msg_def zero_slot_def zero_vectors_def PSA_SUCCESS_def
        clear_nspe_queue_pend_status_def set_nspe_queue_replied_status_def
        tfm_mailbox_hal_notify_peer_def)

lemma connect_drain_pass:
  "\<exists>s'. tfm_mailbox_handle_msg example_env connect_pending_state = Inr (MAILBOX_SUCCESS, s')
     \<and> trace s' = [Dispatched 2, Pend_cleared 4]"
  by (simp add: tfm_mailbox_handle_msg_def get_nspe_queue_pend_status_def Let_def
        handle_msg_loop.simps handle_slot_def example_env_def connect_pending_state_def
        example_state_def clear_spe_queue_empty_status_def check_mailbox_msg_def
        get_spe_mailbox_msg_handle_def tfm_mailbox_dispatch_def dispatch_finish_def
        zero_msg_def zero_slot_def zero_vectors_def PSA_SUCCESS_def
        clear_nspe_queue_pend_status_def set_nspe_queue_replied_status_def
        tfm_mailbox_hal_notify_peer_def)



subsection \<open>What a pass does with each slot\<close>











section \<open>Initialisation and reply delivery\<close>

lemma seed_empty_slots_mask:
  assumes "1 \<le> n" "n \<le> 32"
  shows "(seed_empty_slots n :: 'w::len word) = mask n"
proof -
  obtain m where n: "n = Suc m" using assms(1) by (cases n) simp_all
  with assms(2) have m: "m < 32" by simp
  have A: "push_bit m (1 :: u32) - 1 = mask m"
    by (simp add: mask_eq_exp_minus_1)
  have B: "(ucast (mask m :: u32) :: 'w word) = mask m"
    using m by (simp add: ucast_mask_eq min_def)
  have C: "(ucast (push_bit m (1 :: u32)) :: 'w word) = 2 ^ m"
    by (rule bit_word_eqI) (use m in \<open>auto simp: bit_simps\<close>)
  have D: "(mask m :: 'w word) + 2 ^ m = mask (Suc m)"
    by (simp add: mask_eq_exp_minus_1)
  show ?thesis
    unfolding seed_empty_slots_def n by (simp only: diff_Suc_1 A B C D)
qed

lemma unat_mask_mod:
  "unat (mask n :: 'w::len word) = (2 ^ n - 1) mod 2 ^ LENGTH('w)"
proof -
  have "(mask n :: 'w word) = word_of_nat (2 ^ n - 1)"
    by (simp add: mask_eq_exp_minus_1 of_nat_diff)
  then show ?thesis by (simp only: unat_of_nat)
qed

lemma tfm_mailbox_init_empty_slots:
  "empty_slots (snd (tfm_mailbox_init env s)) = seed_empty_slots (NUM_MAILBOX_QUEUE_SLOT env)"
  by (simp add: tfm_mailbox_init_def Let_def split: prod.splits)

lemma tfm_mailbox_init_queue:
  "queue (snd (tfm_mailbox_init env s)) = (\<lambda>i. zero_slot)"
  by (simp add: tfm_mailbox_init_def Let_def split: prod.splits)

lemma tfm_mailbox_reply_msg_out_of_range:
  assumes "handle \<noteq> MAILBOX_MSG_NULL_HANDLE"
    and "NUM_MAILBOX_QUEUE_SLOT env \<le> unat (ucast (handle - 1) :: u8)"
  shows "tfm_mailbox_reply_msg env handle reply s = Inl UNDEFINED_BEHAVIOUR"
  using assms
  by (simp add: tfm_mailbox_reply_msg_def get_spe_mailbox_msg_idx_def
        get_spe_queue_empty_status_def mailbox_direct_reply_def)

lemma tfm_mailbox_reply_msg_never_inval_params:
  "tfm_mailbox_reply_msg env handle reply s \<noteq> Inr (MAILBOX_INVAL_PARAMS, s')"
  by (auto simp: tfm_mailbox_reply_msg_def get_spe_mailbox_msg_idx_def
        split: if_splits sum.splits)

lemma tfm_mailbox_reply_msg_empty_slot:
  assumes "get_spe_queue_empty_status env
     (if handle = MAILBOX_MSG_NULL_HANDLE then 0 else unat (ucast (handle - 1) :: u8)) s"
  shows "tfm_mailbox_reply_msg env handle reply s = Inr (MAILBOX_NO_PEND_EVENT, s)"
proof (cases "handle = MAILBOX_MSG_NULL_HANDLE")
  case True
  with assms show ?thesis by (simp add: tfm_mailbox_reply_msg_def)
next
  case False
  with assms show ?thesis
    by (simp add: tfm_mailbox_reply_msg_def get_spe_mailbox_msg_idx_def)
qed

section \<open>Claims about the drain pass\<close>




text \<open>
  Claim C7. For every call of \<open>tfm_mailbox_handle_msg\<close>: with a snapshot of zero it
  returns \<open>MAILBOX_NO_PEND_EVENT\<close> at once, with the state (and so the log) as it was;
  with any other snapshot, a pass that completes returns \<open>MAILBOX_SUCCESS\<close> and has
  called \<open>tfm_mailbox_hal_notify_peer\<close> exactly once when \<open>mailbox_direct_reply\<close>
  committed a reply for at least one slot in the pass, and not at all when it did for
  none. The pass completes in every mailbox whose \<open>ns_slot_count\<close> is at most
  \<open>NUM_MAILBOX_QUEUE_SLOT\<close>, itself at most 32, and whose staged lengths are in range.
\<close>

theorem drain_pass_notifies_once:
  "(pend_slots (ns_status s) = 0 \<longrightarrow>
      tfm_mailbox_handle_msg env s = Inr (MAILBOX_NO_PEND_EVENT, s))
   \<and> (pend_slots (ns_status s) \<noteq> 0 \<longrightarrow>
      (\<forall>ret s'. tfm_mailbox_handle_msg env s = Inr (ret, s') \<longrightarrow>
         ret = MAILBOX_SUCCESS
         \<and> notify_count (new_events s s')
             = (if list_ex is_direct_reply (new_events s s') then 1 else 0)))
   \<and> (NUM_MAILBOX_QUEUE_SLOT env \<le> 32 \<and> ns_slot_count s \<le> NUM_MAILBOX_QUEUE_SLOT env
        \<and> staged_lens_in_range env s \<longrightarrow>
      (\<exists>ret s'. tfm_mailbox_handle_msg env s = Inr (ret, s')))"
proof (intro conjI impI allI)
  assume "pend_slots (ns_status s) = 0"
  then show "tfm_mailbox_handle_msg env s = Inr (MAILBOX_NO_PEND_EVENT, s)"
    by (simp add: tfm_mailbox_handle_msg_def get_nspe_queue_pend_status_def)
next
  fix ret s'
  assume nz: "pend_slots (ns_status s) \<noteq> 0"
    and h: "tfm_mailbox_handle_msg env s = Inr (ret, s')"
  from nz h obtain es r' where
    ret: "ret = MAILBOX_SUCCESS"
    and ev: "new_events s s' = es @ Pend_cleared (pend_slots (ns_status s))
        # (if r' \<noteq> 0 then [Notify_peer] else [])"
    and es: "list_all is_slot_event es"
    and d: "dispatched_slots es
        = filter (\<lambda>i. pend_slots (ns_status s) AND push_bit i 1 \<noteq> 0) [0..<ns_slot_count s]"
    and r': "(r' = 0) = (\<not> list_ex is_direct_reply es)"
    and p: "pend_slots (ns_status s')
        = pend_slots (ns_status s) AND NOT (pend_slots (ns_status s))"
    and q: "replied_slots (ns_status s') = replied_slots (ns_status s) OR r'"
    and n: "ns_slot_count s' = ns_slot_count s"
    by (rule tfm_mailbox_handle_msg_Inr)
  show "ret = MAILBOX_SUCCESS" by (rule ret)
  have "notify_count (new_events s s') = (if r' \<noteq> 0 then 1 else 0)"
    using notify_count_slot_events [OF es] by (simp add: ev notify_count_def)
  moreover have "list_ex is_direct_reply (new_events s s') = list_ex is_direct_reply es"
    by (simp add: ev)
  ultimately show "notify_count (new_events s s')
      = (if list_ex is_direct_reply (new_events s s') then 1 else 0)"
    using r' by simp
next
  assume "NUM_MAILBOX_QUEUE_SLOT env \<le> 32 \<and> ns_slot_count s \<le> NUM_MAILBOX_QUEUE_SLOT env
        \<and> staged_lens_in_range env s"
  then have "\<exists>ret s'. tfm_mailbox_handle_msg env s = Inr (ret, s')
      \<and> staged_lens_in_range env s'"
    by (intro tfm_mailbox_handle_msg_completes) simp_all
  then show "\<exists>ret s'. tfm_mailbox_handle_msg env s = Inr (ret, s')" by blast
qed

text \<open>Nothing pending: no event. A version query and a connect pending: the query is
  answered in the pass, the connect is forwarded, and the peer is notified once. Only a
  connect pending: it is forwarded, and the peer is not notified.\<close>

theorem drain_pass_notifies_once_witness:
  "tfm_mailbox_handle_msg example_env example_state
     = Inr (MAILBOX_NO_PEND_EVENT, example_state)
   \<and> (\<exists>s'. tfm_mailbox_handle_msg example_env pending_state = Inr (MAILBOX_SUCCESS, s')
        \<and> list_ex is_direct_reply (new_events pending_state s')
        \<and> notify_count (new_events pending_state s') = 1)
   \<and> (\<exists>s'. tfm_mailbox_handle_msg example_env connect_pending_state
          = Inr (MAILBOX_SUCCESS, s')
        \<and> \<not> list_ex is_direct_reply (new_events connect_pending_state s')
        \<and> notify_count (new_events connect_pending_state s') = 0)"
proof -
  note t0 = drain_pass_notifies_once [of example_state example_env]
  note t1 = drain_pass_notifies_once [of pending_state example_env]
  note t2 = drain_pass_notifies_once [of connect_pending_state example_env]
  have "pend_slots (ns_status example_state) = 0" by (simp add: example_state_def)
  with t0 have a: "tfm_mailbox_handle_msg example_env example_state
     = Inr (MAILBOX_NO_PEND_EVENT, example_state)" by blast
  from example_drain_pass obtain s' where
    h: "tfm_mailbox_handle_msg example_env pending_state = Inr (MAILBOX_SUCCESS, s')"
    and t: "trace s' = [Dispatched 0, Direct_reply 0 257, Dispatched 2, Pend_cleared 5,
        Notify_peer]"
    by blast
  have d: "list_ex is_direct_reply (new_events pending_state s')"
    by (simp add: new_events_def t pending_state_def example_state_def)
  have "pend_slots (ns_status pending_state) \<noteq> 0"
    by (simp add: pending_state_def example_state_def)
  with t1 h d have b: "notify_count (new_events pending_state s') = 1" by auto
  from connect_drain_pass obtain s'' where
    h': "tfm_mailbox_handle_msg example_env connect_pending_state = Inr (MAILBOX_SUCCESS, s'')"
    and t': "trace s'' = [Dispatched 2, Pend_cleared 4]"
    by blast
  have d': "\<not> list_ex is_direct_reply (new_events connect_pending_state s'')"
    by (simp add: new_events_def t' connect_pending_state_def example_state_def)
  have "pend_slots (ns_status connect_pending_state) \<noteq> 0"
    by (simp add: connect_pending_state_def example_state_def)
  with t2 h' d' have c: "notify_count (new_events connect_pending_state s'') = 0" by auto
  from a h d b h' d' c show ?thesis by blast
qed

section \<open>Claims about the slot table and the staging buffer\<close>

text \<open>
  Claim C4. For every slot index below \<open>NUM_MAILBOX_QUEUE_SLOT\<close> (a capacity that fits
  the 32-bit bitmask) and every result value, once \<open>mailbox_direct_reply\<close> has
  completed, the slot's queue entry is all zero, the slot's bit is set in
  \<open>empty_slots\<close> (so \<open>get_spe_queue_empty_status\<close> answers true), and the slot's
  staging entry is not in use.
\<close>

theorem mailbox_direct_reply_empties_slot:
  assumes "idx < NUM_MAILBOX_QUEUE_SLOT env"
    and "NUM_MAILBOX_QUEUE_SLOT env \<le> 32"
    and "mailbox_direct_reply env idx result s = Inr s'"
  shows "queue s' idx = zero_slot
       \<and> bit (empty_slots s') idx
       \<and> get_spe_queue_empty_status env idx s'
       \<and> \<not> in_use (vectors s' idx)"
proof -
  note r = mailbox_direct_reply_Inr [OF assms(3)]
  from assms(1,2) have lt: "idx < 32" by simp
  have "queue s' idx = zero_slot" by (simp add: r(2))
  moreover have b: "bit (empty_slots s') idx"
    unfolding r(3) by (rule bit_push_bit_one_32 [OF lt])
  moreover have "get_spe_queue_empty_status env idx s'"
    unfolding get_spe_queue_empty_status_def and_push_bit_one_32 [OF lt]
    using b assms(1) by simp
  moreover have "\<not> in_use (vectors s' idx)" by (simp add: r(4))
  ultimately show ?thesis by simp
qed

text \<open>The reply to the call in flight in slot 1 of \<open>staged_state\<close> completes and
  leaves slot 1 empty.\<close>

theorem mailbox_direct_reply_empties_slot_witness:
  "\<exists>s'. mailbox_direct_reply example_env 1 0 staged_state = Inr s'
     \<and> queue s' 1 = zero_slot \<and> bit (empty_slots s') 1
     \<and> get_spe_queue_empty_status example_env 1 s' \<and> \<not> in_use (vectors s' 1)"
proof -
  have "\<exists>s'. mailbox_direct_reply example_env 1 0 staged_state = Inr s'"
    by (rule mailbox_direct_reply_completes)
       (simp_all add: example_env_def staged_state_def example_state_def)
  then obtain s' where r: "mailbox_direct_reply example_env 1 0 staged_state = Inr s'" ..
  have "(1::nat) < NUM_MAILBOX_QUEUE_SLOT example_env" "NUM_MAILBOX_QUEUE_SLOT example_env \<le> 32"
    by (simp_all add: example_env_def)
  from mailbox_direct_reply_empties_slot [OF this r] r show ?thesis by blast
qed

text \<open>
  Claim C5. For every request whose input or output descriptor array is null while its
  declared length is not zero, or whose \<open>in_len\<close>, \<open>out_len\<close> or
  \<open>in_len + out_len\<close> (as numbers, without wrap-around) is larger than
  \<open>PSA_MAX_IOVEC\<close>, \<open>local_copy_vects\<close> returns \<open>MAILBOX_INVAL_PARAMS\<close> and leaves
  the whole state and the control word as they were.
\<close>

theorem local_copy_vects_rejects:
  assumes "PSA_MAX_IOVEC env \<le> 2 ^ 29"
    and "(psa_call_in_vec p = NULL \<and> psa_call_in_len p \<noteq> 0)
       \<or> (psa_call_out_vec p = NULL \<and> psa_call_out_len p \<noteq> 0)
       \<or> PSA_MAX_IOVEC env < unat (psa_call_in_len p)
       \<or> PSA_MAX_IOVEC env < unat (psa_call_out_len p)
       \<or> PSA_MAX_IOVEC env < unat (psa_call_in_len p) + unat (psa_call_out_len p)"
  shows "local_copy_vects env p idx control s = Inr (MAILBOX_INVAL_PARAMS, control, s)"
proof (cases "PSA_MAX_IOVEC env < unat (psa_call_in_len p)
       \<or> PSA_MAX_IOVEC env < unat (psa_call_out_len p)")
  case True
  then show ?thesis by (auto simp: local_copy_vects_def)
next
  case False
  then have "unat (psa_call_in_len p) + unat (psa_call_out_len p) \<le> 2 ^ 29 + 2 ^ 29"
    using assms(1) by (intro add_mono) simp_all
  then have "unat (psa_call_in_len p) + unat (psa_call_out_len p) < 2 ^ LENGTH(32)"
    by simp
  then have "unat (psa_call_in_len p + psa_call_out_len p)
      = unat (psa_call_in_len p) + unat (psa_call_out_len p)"
    by (simp only: unat_add_lem)
  with assms(2) False show ?thesis by (auto simp: local_copy_vects_def)
qed

text \<open>Three input and two output vectors are rejected with four as the maximum.\<close>

theorem local_copy_vects_rejects_witness:
  "local_copy_vects example_env oversized_params 0 0 example_state
     = Inr (MAILBOX_INVAL_PARAMS, 0, example_state)"
proof -
  have "PSA_MAX_IOVEC example_env \<le> 2 ^ 29" by (simp add: example_env_def)
  moreover have "PSA_MAX_IOVEC example_env
      < unat (psa_call_in_len oversized_params) + unat (psa_call_out_len oversized_params)"
    by (simp add: example_env_def oversized_params_def)
  ultimately show ?thesis by (intro local_copy_vects_rejects) simp_all
qed




section \<open>Claims about initialisation and reply delivery\<close>

text \<open>
  Claim C10. For every \<open>NUM_MAILBOX_QUEUE_SLOT\<close> from 1 to 32 (the shifts of
  \<open>1UL\<close> are then defined), after \<open>tfm_mailbox_init\<close> the queue is zeroed and
  \<open>empty_slots\<close> has exactly the low \<open>NUM_MAILBOX_QUEUE_SLOT\<close> bits set: it is
  \<open>2 ^ NUM_MAILBOX_QUEUE_SLOT - 1\<close> modulo \<open>2 ^ 32\<close>, also when
  \<open>NUM_MAILBOX_QUEUE_SLOT\<close> is 32. The same holds of the seed computed into a bitmask
  of any width \<open>w\<close>: its set bits are those below both \<open>NUM_MAILBOX_QUEUE_SLOT\<close> and
  \<open>w\<close>, and its value is \<open>2 ^ NUM_MAILBOX_QUEUE_SLOT - 1\<close> modulo \<open>2 ^ w\<close>.
\<close>

theorem tfm_mailbox_init_seeds_low_bits:
  assumes "1 \<le> NUM_MAILBOX_QUEUE_SLOT env" "NUM_MAILBOX_QUEUE_SLOT env \<le> 32"
  shows "empty_slots (snd (tfm_mailbox_init env s)) = mask (NUM_MAILBOX_QUEUE_SLOT env)
       \<and> unat (empty_slots (snd (tfm_mailbox_init env s)))
           = (2 ^ NUM_MAILBOX_QUEUE_SLOT env - 1) mod 2 ^ 32
       \<and> (\<forall>i. bit (empty_slots (snd (tfm_mailbox_init env s))) i
              = (i < NUM_MAILBOX_QUEUE_SLOT env))
       \<and> queue (snd (tfm_mailbox_init env s)) = (\<lambda>i. zero_slot)
       \<and> (seed_empty_slots (NUM_MAILBOX_QUEUE_SLOT env) :: 'w::len word)
           = mask (NUM_MAILBOX_QUEUE_SLOT env)
       \<and> unat (seed_empty_slots (NUM_MAILBOX_QUEUE_SLOT env) :: 'w word)
           = (2 ^ NUM_MAILBOX_QUEUE_SLOT env - 1) mod 2 ^ LENGTH('w)
       \<and> (\<forall>i. bit (seed_empty_slots (NUM_MAILBOX_QUEUE_SLOT env) :: 'w word) i
              = (i < NUM_MAILBOX_QUEUE_SLOT env \<and> i < LENGTH('w)))"
proof -
  let ?n = "NUM_MAILBOX_QUEUE_SLOT env"
  have e: "empty_slots (snd (tfm_mailbox_init env s)) = mask ?n"
    by (simp only: tfm_mailbox_init_empty_slots seed_empty_slots_mask [OF assms])
  have w: "(seed_empty_slots ?n :: 'w word) = mask ?n"
    by (rule seed_empty_slots_mask [OF assms])
  have "unat (mask ?n :: u32) = (2 ^ ?n - 1) mod 2 ^ 32"
    using unat_mask_mod [of ?n, where 'w = 32] by simp
  moreover have "bit (mask ?n :: u32) i = (i < ?n)" for i
    using assms(2) by (auto simp: bit_mask_iff)
  moreover have "bit (mask ?n :: 'w word) i = (i < ?n \<and> i < LENGTH('w))" for i
    by (auto simp: bit_mask_iff)
  ultimately show ?thesis
    by (simp only: e w unat_mask_mod tfm_mailbox_init_queue) simp
qed

text \<open>Four slots give \<open>0xF\<close>; 32 slots in a 32-bit mask and 8 slots in an 8-bit
  mask give all ones.\<close>

theorem tfm_mailbox_init_seeds_low_bits_witness:
  "empty_slots (snd (tfm_mailbox_init example_env example_state)) = 15
   \<and> (seed_empty_slots 32 :: 32 word) = 4294967295
   \<and> (seed_empty_slots 8 :: 8 word) = 255
   \<and> (seed_empty_slots 4 :: 8 word) = 15"
proof -
  have h4: "1 \<le> NUM_MAILBOX_QUEUE_SLOT example_env" "NUM_MAILBOX_QUEUE_SLOT example_env \<le> 32"
    by (simp_all add: example_env_def)
  have n4: "NUM_MAILBOX_QUEUE_SLOT example_env = 4" by (simp add: example_env_def)
  let ?e8 = "example_env\<lparr>NUM_MAILBOX_QUEUE_SLOT := 8\<rparr>"
  let ?e32 = "example_env\<lparr>NUM_MAILBOX_QUEUE_SLOT := 32\<rparr>"
  have h8: "1 \<le> NUM_MAILBOX_QUEUE_SLOT ?e8" "NUM_MAILBOX_QUEUE_SLOT ?e8 \<le> 32" by simp_all
  have h32: "1 \<le> NUM_MAILBOX_QUEUE_SLOT ?e32" "NUM_MAILBOX_QUEUE_SLOT ?e32 \<le> 32" by simp_all
  have "empty_slots (snd (tfm_mailbox_init example_env example_state)) = mask 4"
    using tfm_mailbox_init_seeds_low_bits [OF h4, of example_state, where 'w = 32]
    by (simp only: n4)
  moreover have "(seed_empty_slots 4 :: 8 word) = mask 4"
    using tfm_mailbox_init_seeds_low_bits [OF h4, of example_state, where 'w = 8]
    by (simp only: n4)
  moreover have "(seed_empty_slots 8 :: 8 word) = mask 8"
    using tfm_mailbox_init_seeds_low_bits [OF h8, of example_state, where 'w = 8]
    by simp
  moreover have "(seed_empty_slots 32 :: 32 word) = mask 32"
    using tfm_mailbox_init_seeds_low_bits [OF h32, of example_state, where 'w = 32]
    by simp
  ultimately show ?thesis by (simp add: mask_eq_exp_minus_1)
qed


text \<open>
  Claim C2 says that \<open>tfm_mailbox_reply_msg\<close> answers a handle that decodes to no slot
  with \<open>MAILBOX_INVAL_PARAMS\<close> and changes nothing. The code does not: with four slots,
  the handle 5 decodes to index 4, \<open>get_spe_mailbox_msg_idx\<close> accepts it (it checks the
  null handle only, where \<open>get_spe_mailbox_msg_handle\<close> checks the range), and
  \<open>mailbox_direct_reply\<close> reads \<open>vectors[4]\<close>, outside the array. The other half of
  the claim holds, by \<open>tfm_mailbox_reply_msg_empty_slot\<close> above.
\<close>

theorem tfm_mailbox_reply_msg_malformed_handle:
  "tfm_mailbox_reply_msg example_env 5 0 example_state = Inl UNDEFINED_BEHAVIOUR
   \<and> tfm_mailbox_reply_msg example_env 5 0 example_state
       \<noteq> Inr (MAILBOX_INVAL_PARAMS, example_state)"
proof -
  have "tfm_mailbox_reply_msg example_env 5 0 example_state = Inl UNDEFINED_BEHAVIOUR"
    by (rule tfm_mailbox_reply_msg_out_of_range)
       (simp_all add: MAILBOX_MSG_NULL_HANDLE_def example_env_def)
  then show ?thesis by simp
qed

section \<open>Claims about the connection lifecycle\<close>

text \<open>
  Claim C8. For every call of \<open>spm_psa_connect_client_id_associated\<close>: when the service
  id does not exist it returns \<open>PSA_ERROR_CONNECTION_REFUSED\<close> with the state as it was;
  when any of the four checks (existence, statelessness, authorization, version) fails
  it returns an error with the state as it was, so the allocator is called only after
  all four have passed; when they pass and the allocator finds the pool exhausted it
  returns \<open>PSA_ERROR_CONNECTION_BUSY\<close> and the state is the one the failed allocation
  left; when they pass and the allocator returns a connection, that connection is
  returned.
\<close>

theorem connect_allocates_after_checks:
  "(tfm_spm_get_service_by_sid env sid = None \<longrightarrow>
      spm_psa_connect_client_id_associated env sid version cid s
        = (Inl PSA_ERROR_CONNECTION_REFUSED, s))
   \<and> (\<not> connect_checks_pass env sid version cid \<longrightarrow>
      snd (spm_psa_connect_client_id_associated env sid version cid s) = s
      \<and> (\<exists>e. fst (spm_psa_connect_client_id_associated env sid version cid s) = Inl e))
   \<and> (connect_checks_pass env sid version cid \<longrightarrow>
      (\<forall>s1. spm_allocate_connection env s = (None, s1) \<longrightarrow>
         spm_psa_connect_client_id_associated env sid version cid s
           = (Inl PSA_ERROR_CONNECTION_BUSY, s1)))
   \<and> (connect_checks_pass env sid version cid \<longrightarrow>
      (\<forall>c s1. spm_allocate_connection env s = (Some c, s1) \<longrightarrow>
         fst (spm_psa_connect_client_id_associated env sid version cid s) = Inr c))"
proof (intro conjI impI allI)
  assume "tfm_spm_get_service_by_sid env sid = None"
  then show "spm_psa_connect_client_id_associated env sid version cid s
        = (Inl PSA_ERROR_CONNECTION_REFUSED, s)"
    by (simp add: spm_psa_connect_client_id_associated_def)
next
  assume "\<not> connect_checks_pass env sid version cid"
  then show "snd (spm_psa_connect_client_id_associated env sid version cid s) = s"
    by (auto simp: spm_psa_connect_client_id_associated_def connect_checks_pass_def
          split: option.splits)
next
  assume "\<not> connect_checks_pass env sid version cid"
  then show "\<exists>e. fst (spm_psa_connect_client_id_associated env sid version cid s) = Inl e"
    by (auto simp: spm_psa_connect_client_id_associated_def connect_checks_pass_def
          split: option.splits)
next
  fix s1
  assume "connect_checks_pass env sid version cid"
    and "spm_allocate_connection env s = (None, s1)"
  then show "spm_psa_connect_client_id_associated env sid version cid s
        = (Inl PSA_ERROR_CONNECTION_BUSY, s1)"
    by (auto simp: spm_psa_connect_client_id_associated_def connect_checks_pass_def
          split: option.splits)
next
  fix c s1
  assume "connect_checks_pass env sid version cid"
    and "spm_allocate_connection env s = (Some c, s1)"
  then show "fst (spm_psa_connect_client_id_associated env sid version cid s) = Inr c"
    by (auto simp: spm_psa_connect_client_id_associated_def connect_checks_pass_def Let_def
          split: option.splits)
qed

text \<open>In the example SPM: an unknown service id, an exhausted pool, an unsupported
  version, and a successful allocation of block 0.\<close>

theorem connect_allocates_after_checks_witness:
  "spm_psa_connect_client_id_associated example_spm_env 9 1 (- 1) example_spm_state
     = (Inl PSA_ERROR_CONNECTION_REFUSED, example_spm_state)
   \<and> spm_psa_connect_client_id_associated example_spm_env 7 1 (- 1) exhausted_spm_state
     = (Inl PSA_ERROR_CONNECTION_BUSY, exhausted_spm_state)
   \<and> snd (spm_psa_connect_client_id_associated example_spm_env 7 2 (- 1) example_spm_state)
     = example_spm_state
   \<and> fst (spm_psa_connect_client_id_associated example_spm_env 7 1 (- 1) example_spm_state)
     = Inr 0"
proof -
  have 1: "tfm_spm_get_service_by_sid example_spm_env 9 = None"
    by (simp add: example_spm_env_def)
  have 2: "connect_checks_pass example_spm_env 7 1 (- 1)"
    by (simp add: example_spm_env_def connect_checks_pass_def PSA_SUCCESS_def)
  have 3: "\<not> connect_checks_pass example_spm_env 7 2 (- 1)"
    by (simp add: example_spm_env_def connect_checks_pass_def PSA_SUCCESS_def
          PSA_ERROR_CONNECTION_REFUSED_def)
  have 4: "spm_allocate_connection example_spm_env exhausted_spm_state
      = (None, exhausted_spm_state)"
    by (simp add: example_spm_env_def example_allocate_def exhausted_spm_state_def
          example_spm_state_def upt_rec)
  have 5: "spm_allocate_connection example_spm_env example_spm_state
      = (Some 0, example_spm_state\<lparr>pool_used := (pool_used example_spm_state)(0 := True)\<rparr>)"
    by (simp add: example_spm_env_def example_allocate_def example_spm_state_def upt_rec)
  from connect_allocates_after_checks [of example_spm_env 9 1 "- 1" example_spm_state] 1
       connect_allocates_after_checks [of example_spm_env 7 1 "- 1" exhausted_spm_state] 2 4
       connect_allocates_after_checks [of example_spm_env 7 2 "- 1" example_spm_state] 3
       connect_allocates_after_checks [of example_spm_env 7 1 "- 1" example_spm_state] 2 5
  show ?thesis by blast
qed

text \<open>
  Claim C3 as stated fails: \<open>tfm_spm_client_psa_connect\<close> sets the status after
  \<open>backend_messaging\<close> whatever it returned. With a backend that refuses the message,
  the call returns the backend's error and the connection it allocated is
  \<open>TFM_HANDLE_STATUS_ACTIVE\<close>.
\<close>

theorem connect_active_after_failed_forward:
  "fst (spm_psa_connect_client_id_associated failing_backend_env 7 1 (- 1) example_spm_state)
     = Inr 0
   \<and> fst (tfm_spm_client_psa_connect failing_backend_env 7 1 example_spm_state)
     = PSA_ERROR_CONNECTION_REFUSED
   \<and> PSA_ERROR_CONNECTION_REFUSED \<noteq> PSA_SUCCESS
   \<and> status (connections (snd (tfm_spm_client_psa_connect failing_backend_env 7 1
        example_spm_state)) 0) = TFM_HANDLE_STATUS_ACTIVE"
  by (simp add: tfm_spm_client_psa_connect_def spm_psa_connect_client_id_associated_def
        failing_backend_env_def example_spm_env_def example_spm_state_def
        example_allocate_def example_init_idle_def Let_def
        PSA_SUCCESS_def PSA_ERROR_CONNECTION_REFUSED_def upt_rec)

text \<open>
  Claim C3, as amended. For every call of \<open>tfm_spm_client_psa_connect\<close> that passes
  all checks and allocates a connection, the call returns the status of
  \<open>backend_messaging\<close>, and the connection's status is
  \<open>TFM_HANDLE_STATUS_ACTIVE\<close> afterwards, whether that status is \<open>PSA_SUCCESS\<close> or
  an error.
\<close>

theorem connect_marks_active_unconditionally:
  assumes "spm_psa_connect_client_id_associated env sid version
             (tfm_spm_get_client_id env (tfm_spm_is_ns_caller env s) s) s = (Inr c, s1)"
  shows "fst (tfm_spm_client_psa_connect env sid version s) = fst (backend_messaging env c s1)
       \<and> status (connections (snd (tfm_spm_client_psa_connect env sid version s)) c)
           = TFM_HANDLE_STATUS_ACTIVE"
  using assms by (simp add: tfm_spm_client_psa_connect_def Let_def split: prod.splits)

text \<open>In the example SPM the forward succeeds and block 0 is active.\<close>

theorem connect_marks_active_unconditionally_witness:
  "fst (tfm_spm_client_psa_connect example_spm_env 7 1 example_spm_state) = PSA_SUCCESS
   \<and> status (connections (snd (tfm_spm_client_psa_connect example_spm_env 7 1
        example_spm_state)) 0) = TFM_HANDLE_STATUS_ACTIVE"
proof -
  let ?s1 = "snd (spm_psa_connect_client_id_associated example_spm_env 7 1 (- 1) example_spm_state)"
  have "spm_psa_connect_client_id_associated example_spm_env 7 1
          (tfm_spm_get_client_id example_spm_env
             (tfm_spm_is_ns_caller example_spm_env example_spm_state) example_spm_state)
          example_spm_state = (Inr 0, ?s1)"
    by (simp add: spm_psa_connect_client_id_associated_def
        example_spm_env_def example_spm_state_def
        example_allocate_def example_init_idle_def Let_def
        PSA_SUCCESS_def upt_rec)
  from connect_marks_active_unconditionally [OF this]
  show ?thesis by (simp add: example_spm_env_def)
qed

text \<open>
  Claim C9. For every client id and every state, \<open>spm_psa_close_client_id_associated\<close>
  with the null handle returns \<open>PSA_SUCCESS\<close> and the state it was given; and any number
  \<open>n\<close> of such calls in succession return \<open>PSA_SUCCESS\<close> each time and end in the
  state they started from.
\<close>

theorem close_null_handle_idempotent:
  "spm_psa_close_client_id_associated env PSA_NULL_HANDLE cid s = (PSA_SUCCESS, s)
   \<and> close_repeatedly env n PSA_NULL_HANDLE cid s = (replicate n PSA_SUCCESS, s)"
proof -
  have one: "spm_psa_close_client_id_associated env PSA_NULL_HANDLE cid s = (PSA_SUCCESS, s)"
    by (simp add: spm_psa_close_client_id_associated_def)
  have "close_repeatedly env n PSA_NULL_HANDLE cid s = (replicate n PSA_SUCCESS, s)"
    by (induction n) (simp_all add: one)
  with one show ?thesis by simp
qed


end
